theory Spec2Isabelle
  imports Main "HOL-Library.Multiset"
begin

section \<open>Wallet watcher: subscription store, stream registrar and alert dispatcher\<close>

text \<open>
  A shallow embedding of the wallet-tracking bot: the amount formatter of
  \<^verbatim>\<open>src/utils/formatters.js\<close>, the address validators, the \<^verbatim>\<open>/track\<close> and
  \<^verbatim>\<open>/untrack\<close> command handlers of \<^verbatim>\<open>src/services/bot.service.js\<close>, the stream
  calls of \<^verbatim>\<open>src/services/moralis.service.js\<close> and the webhook receiver.

  JavaScript strings are modelled as \<^typ>\<open>string\<close> (lists of 8-bit characters, read as the
  UTF-8 bytes of the text); case conversion and white space are the ASCII ones, which is all
  that hex addresses, base58 addresses, chain tickers and decimal amounts use.
\<close>

subsection \<open>JavaScript strings\<close>

definition toLowerCase_char :: "char \<Rightarrow> char" where
  "toLowerCase_char c =
     (case map_of (zip ''ABCDEFGHIJKLMNOPQRSTUVWXYZ'' ''abcdefghijklmnopqrstuvwxyz'') c of
        Some l \<Rightarrow> l | None \<Rightarrow> c)"

definition toUpperCase_char :: "char \<Rightarrow> char" where
  "toUpperCase_char c =
     (case map_of (zip ''abcdefghijklmnopqrstuvwxyz'' ''ABCDEFGHIJKLMNOPQRSTUVWXYZ'') c of
        Some u \<Rightarrow> u | None \<Rightarrow> c)"

definition toLowerCase :: "string \<Rightarrow> string" where
  "toLowerCase s = map toLowerCase_char s"

definition toUpperCase :: "string \<Rightarrow> string" where
  "toUpperCase s = map toUpperCase_char s"

text \<open>White space: TAB, LF, VT, FF, CR and SP (the ASCII part of \<^verbatim>\<open>\s\<close> and of
  \<^verbatim>\<open>StrWhiteSpaceChar\<close>).\<close>

definition is_space :: "char \<Rightarrow> bool" where
  "is_space c = (c \<in> set [CHR 0x09, CHR 0x0A, CHR 0x0B, CHR 0x0C, CHR 0x0D, CHR '' ''])"

definition trim :: "string \<Rightarrow> string" where
  "trim s = rev (dropWhile is_space (rev (dropWhile is_space s)))"

text \<open>\<^verbatim>\<open>s.padStart(n, '0')\<close>.\<close>

definition padStart0 :: "nat \<Rightarrow> string \<Rightarrow> string" where
  "padStart0 n s = replicate (n - length s) (CHR ''0'') @ s"

text \<open>\<^verbatim>\<open>s.replace(/0+$/, '')\<close>.\<close>

definition strip_trailing_zeros :: "string \<Rightarrow> string" where
  "strip_trailing_zeros s = rev (dropWhile (\<lambda>c. c = CHR ''0'') (rev s))"

subsection \<open>BigInt\<close>

datatype js_error = SyntaxError | RangeError | TypeError

definition digit_char :: "nat \<Rightarrow> char" where
  "digit_char n = ''0123456789'' ! (n mod 10)"

text \<open>\<^verbatim>\<open>n.toString()\<close> for a non-negative BigInt.\<close>

function string_of_nat :: "nat \<Rightarrow> string" where
  "string_of_nat n =
     (if n < 10 then [digit_char n] else string_of_nat (n div 10) @ [digit_char (n mod 10)])"
  by pat_completeness auto
termination
  by (relation "measure (\<lambda>n. n)") auto

declare string_of_nat.simps [simp del]

definition BigInt_toString :: "int \<Rightarrow> string" where
  "BigInt_toString i =
     (if i < 0 then CHR ''-'' # string_of_nat (nat (- i)) else string_of_nat (nat i))"

definition digit_of :: "char \<Rightarrow> nat option" where
  "digit_of c =
     map_of (zip ''0123456789abcdefABCDEF''
               [0, 1, 2, 3, 4, 5, 6, 7, 8, 9, 10, 11, 12, 13, 14, 15, 10, 11, 12, 13, 14, 15]) c"

fun digits_value :: "nat \<Rightarrow> nat \<Rightarrow> string \<Rightarrow> nat option" where
  "digits_value b acc [] = Some acc"
| "digits_value b acc (c # cs) =
     (case digit_of c of
        None \<Rightarrow> None
      | Some d \<Rightarrow> if d < b then digits_value b (acc * b + d) cs else None)"

definition parse_digits :: "nat \<Rightarrow> string \<Rightarrow> nat option" where
  "parse_digits b s = (if s = [] then None else digits_value b 0 s)"

text \<open>
  \<^verbatim>\<open>BigInt(str)\<close> (ECMAScript StringToBigInt): surrounding white space is dropped; the empty
  text is 0; otherwise the text is a decimal literal with an optional sign, or an unsigned
  \<^verbatim>\<open>0x\<close>, \<^verbatim>\<open>0o\<close> or \<^verbatim>\<open>0b\<close> literal. \<open>None\<close> is the SyntaxError.
\<close>

definition StringToBigInt :: "string \<Rightarrow> int option" where
  "StringToBigInt s =
     (let t = trim s in
      if t = [] then Some 0
      else if take 2 t \<in> set [''0x'', ''0X''] then map_option int (parse_digits 16 (drop 2 t))
      else if take 2 t \<in> set [''0o'', ''0O''] then map_option int (parse_digits 8 (drop 2 t))
      else if take 2 t \<in> set [''0b'', ''0B''] then map_option int (parse_digits 2 (drop 2 t))
      else if hd t = CHR ''+'' then map_option int (parse_digits 10 (tl t))
      else if hd t = CHR ''-'' then map_option (\<lambda>n. - int n) (parse_digits 10 (tl t))
      else map_option int (parse_digits 10 t))"

text \<open>BigInt division truncates towards zero and the remainder takes the sign of the
  dividend; a zero divisor raises RangeError.\<close>

definition BigInt_div :: "int \<Rightarrow> int \<Rightarrow> js_error + int" where
  "BigInt_div a b =
     (if b = 0 then Inl RangeError else Inr (sgn a * sgn b * (\<bar>a\<bar> div \<bar>b\<bar>)))"

definition BigInt_rem :: "int \<Rightarrow> int \<Rightarrow> js_error + int" where
  "BigInt_rem a b = (if b = 0 then Inl RangeError else Inr (sgn a * (\<bar>a\<bar> mod \<bar>b\<bar>)))"

text \<open>
  The \<^verbatim>\<open>decimals\<close> argument is a JavaScript number: the callers pass the \<^verbatim>\<open>decimals\<close> entry
  of the chain table or the result of \<^verbatim>\<open>parseInt\<close>, that is an integer or NaN.
\<close>

datatype jsnum = Num int | NaN

text \<open>
  \<^verbatim>\<open>BigInt(10 ** decimals)\<close>. The power is computed in double precision: it is the exact
  power for exponents 0 to 22; from 23 to 308 it is the integer value of the double the
  engine produces, which the language leaves to the implementation and which is passed in
  as \<open>f64pow10\<close>; above 308 it is Infinity, for a negative exponent it is a fraction (or
  an underflow to zero, which the division then refuses), for NaN it is NaN: each of these
  raises RangeError.
\<close>

definition BigInt_pow10 :: "(nat \<Rightarrow> int) \<Rightarrow> jsnum \<Rightarrow> js_error + int" where
  "BigInt_pow10 f64pow10 decimals =
     (case decimals of
        NaN \<Rightarrow> Inl RangeError
      | Num d \<Rightarrow>
          if d < 0 then Inl RangeError
          else if d \<le> 22 then Inr (10 ^ nat d)
          else if d \<le> 308 then Inr (f64pow10 (nat d))
          else Inl RangeError)"

text \<open>\<^verbatim>\<open>ToLength(decimals)\<close>, the target length of \<^verbatim>\<open>padStart\<close>.\<close>

definition ToLength :: "jsnum \<Rightarrow> nat" where
  "ToLength n = (case n of NaN \<Rightarrow> 0 | Num d \<Rightarrow> nat d)"

subsection \<open>formatValue\<close>

text \<open>The body of the \<^verbatim>\<open>try\<close> block of \<^verbatim>\<open>formatValue\<close>; \<open>Inl\<close> is a thrown exception.\<close>

definition formatValue_try :: "(nat \<Rightarrow> int) \<Rightarrow> string \<Rightarrow> jsnum \<Rightarrow> js_error + string" where
  "formatValue_try f64pow10 value decimals =
     (case StringToBigInt value of
        None \<Rightarrow> Inl SyntaxError
      | Some v \<Rightarrow>
     (case BigInt_pow10 f64pow10 decimals of
        Inl e \<Rightarrow> Inl e
      | Inr p \<Rightarrow>
     (case BigInt_div v p of
        Inl e \<Rightarrow> Inl e
      | Inr amount \<Rightarrow>
     (case BigInt_rem v p of
        Inl e \<Rightarrow> Inl e
      | Inr remainder \<Rightarrow>
          let decimalPart = padStart0 (ToLength decimals) (BigInt_toString remainder) in
          if amount = 0 \<and> remainder = 0 then Inr ''0''
          else
            let amountStr = BigInt_toString amount;
                decimalStr = strip_trailing_zeros (take 8 decimalPart)
            in if decimalStr \<noteq> [] then Inr (amountStr @ ''.'' @ decimalStr)
               else Inr amountStr))))"

text \<open>\<^verbatim>\<open>formatValue\<close>: the \<^verbatim>\<open>catch\<close> clause turns every exception into \<^verbatim>\<open>'0'\<close>. A result
  \<open>Inl e\<close> would be an exception leaving the function.\<close>

definition formatValue :: "(nat \<Rightarrow> int) \<Rightarrow> string \<Rightarrow> jsnum \<Rightarrow> js_error + string" where
  "formatValue f64pow10 value decimals =
     (case formatValue_try f64pow10 value decimals of
        Inl error \<Rightarrow> Inr ''0''
      | Inr s \<Rightarrow> Inr s)"

text \<open>
  The rendering the specification describes: the exact decimal expansion of
  \<open>v / 10 ^ d\<close>, trailing zero fractional digits trimmed and the fractional part dropped
  when it is zero.
\<close>

definition exact_rendering :: "nat \<Rightarrow> nat \<Rightarrow> string" where
  "exact_rendering v d =
     (let frac = strip_trailing_zeros (padStart0 d (string_of_nat (v mod 10 ^ d)))
      in if frac = [] then string_of_nat (v div 10 ^ d)
         else string_of_nat (v div 10 ^ d) @ ''.'' @ frac)"

text \<open>An engine whose powers of ten are the exact ones; concrete evaluations below use
  exponents up to 22, where the engine is not consulted.\<close>

definition exact_pow10 :: "nat \<Rightarrow> int" where
  "exact_pow10 d = 10 ^ d"

text \<open>The \<open>d\<close> low-order decimal digits of \<open>r\<close>, most significant first.\<close>

primrec fixed_digits :: "nat \<Rightarrow> nat \<Rightarrow> string" where
  "fixed_digits 0 r = []"
| "fixed_digits (Suc d) r = fixed_digits d (r div 10) @ [digit_char (r mod 10)]"

subsection \<open>Chain table and configuration\<close>

text \<open>The entries of \<^verbatim>\<open>CHAIN_CONFIG\<close> (\<^verbatim>\<open>src/config/index.js\<close>), in the order of the object
  literal; the \<^verbatim>\<open>icon\<close> glyph, used only in message texts, is left out.\<close>

record chain_config =
  name :: string
  moralisChain :: string
  explorer :: string
  nativeSymbol :: string
  decimals :: int

definition CHAIN_CONFIG :: "(string \<times> chain_config) list" where
  "CHAIN_CONFIG =
    [(''ETH'', \<lparr>name = ''Ethereum'', moralisChain = ''0x1'',
        explorer = ''https://etherscan.io'', nativeSymbol = ''ETH'', decimals = 18\<rparr>),
     (''BSC'', \<lparr>name = ''BNB Smart Chain'', moralisChain = ''0x38'',
        explorer = ''https://bscscan.com'', nativeSymbol = ''BNB'', decimals = 18\<rparr>),
     (''POLYGON'', \<lparr>name = ''Polygon'', moralisChain = ''0x89'',
        explorer = ''https://polygonscan.com'', nativeSymbol = ''MATIC'', decimals = 18\<rparr>),
     (''AVALANCHE'', \<lparr>name = ''Avalanche'', moralisChain = ''0xa86a'',
        explorer = ''https://snowtrace.io'', nativeSymbol = ''AVAX'', decimals = 18\<rparr>),
     (''ARBITRUM'', \<lparr>name = ''Arbitrum'', moralisChain = ''0xa4b1'',
        explorer = ''https://arbiscan.io'', nativeSymbol = ''ETH'', decimals = 18\<rparr>),
     (''OPTIMISM'', \<lparr>name = ''Optimism'', moralisChain = ''0xa'',
        explorer = ''https://optimistic.etherscan.io'', nativeSymbol = ''ETH'', decimals = 18\<rparr>),
     (''BASE'', \<lparr>name = ''Base'', moralisChain = ''0x2105'',
        explorer = ''https://basescan.org'', nativeSymbol = ''ETH'', decimals = 18\<rparr>),
     (''SOL'', \<lparr>name = ''Solana'', moralisChain = ''solana'',
        explorer = ''https://solscan.io'', nativeSymbol = ''SOL'', decimals = 9\<rparr>)]"

text \<open>The part of \<^verbatim>\<open>config\<close> the handlers read; every field comes from the environment.\<close>

record config =
  supported :: "string list"
  rateLimitWindowMs :: int
  rateLimitMaxRequests :: nat
  webhookPublicUrl :: string
  webhookPath :: string
  webhookSecret :: string

text \<open>The values \<^verbatim>\<open>config\<close> takes when the optional variables are unset.\<close>

definition default_config :: config where
  "default_config =
     \<lparr>supported = [''ETH'', ''BSC'', ''POLYGON'', ''AVALANCHE'', ''ARBITRUM'', ''OPTIMISM'',
                    ''BASE'', ''SOL''],
      rateLimitWindowMs = 60000, rateLimitMaxRequests = 10,
      webhookPublicUrl = ''https://bot.example'', webhookPath = ''/webhook/moralis'',
      webhookSecret = ''secret''\<rparr>"

subsection \<open>Address and alias validation\<close>

text \<open>
  The validators call two libraries whose code is not part of the repository: \<^verbatim>\<open>ethers\<close>
  (\<^verbatim>\<open>isAddress\<close>, \<^verbatim>\<open>getAddress\<close>) and \<^verbatim>\<open>bs58\<close> (\<^verbatim>\<open>decode\<close>). They are parameters of the
  model; \<open>None\<close> stands for a thrown exception.
\<close>

record platform =
  isAddress :: "string \<Rightarrow> bool"
  getAddress :: "string \<Rightarrow> string option"
  bs58_decode :: "string \<Rightarrow> nat list option"

text \<open>A validation result \<^verbatim>\<open>{isValid, normalizedAddress, error}\<close>: \<open>Inr\<close> carries the
  normalized address of a valid result, \<open>Inl\<close> the error text of an invalid one.\<close>

type_synonym validation = "string + string"

definition validateEvmAddress :: "platform \<Rightarrow> string \<Rightarrow> validation" where
  "validateEvmAddress P a =
     (if isAddress P a then
        (case getAddress P a of
           Some checksummed \<Rightarrow> Inr checksummed
         | None \<Rightarrow> Inl ''Invalid EVM address format'')
      else Inl ''Invalid EVM address format'')"

definition base58_alphabet :: string where
  "base58_alphabet = ''123456789ABCDEFGHJKLMNPQRSTUVWXYZabcdefghijkmnopqrstuvwxyz''"

definition validateSolanaAddress :: "platform \<Rightarrow> string \<Rightarrow> validation" where
  "validateSolanaAddress P a =
     (if \<not> (32 \<le> length a \<and> length a \<le> 44 \<and> list_all (\<lambda>c. c \<in> set base58_alphabet) a)
      then Inl ''Invalid Solana address format''
      else (case bs58_decode P a of
              None \<Rightarrow> Inl ''Invalid Solana address format''
            | Some decoded \<Rightarrow>
                if length decoded = 32 then Inr a
                else Inl ''Invalid Solana address length''))"

definition validateAddress :: "platform \<Rightarrow> string \<Rightarrow> string \<Rightarrow> validation" where
  "validateAddress P a chainTicker =
     (let chain = toUpperCase chainTicker in
      if chain \<in> set [''ETH'', ''BSC'', ''POLYGON'', ''AVALANCHE'', ''ARBITRUM'', ''OPTIMISM'',
                       ''BASE'']
      then (case validateEvmAddress P a of
              Inl _ \<Rightarrow> Inl (''Invalid '' @ chain @ '' address format. Expected 0x... format.'')
            | Inr n \<Rightarrow> Inr n)
      else if chain = ''SOL''
      then (case validateSolanaAddress P a of
              Inl _ \<Rightarrow> Inl ''Invalid Solana address format. Expected Base58 encoded address.''
            | Inr n \<Rightarrow> Inr n)
      else Inl (''Unsupported chain: '' @ chain))"

definition alias_chars :: string where
  "alias_chars =
     ''abcdefghijklmnopqrstuvwxyzABCDEFGHIJKLMNOPQRSTUVWXYZ0123456789_-''"

text \<open>\<^verbatim>\<open>validateAlias\<close>: \<open>None\<close> is a valid alias, \<open>Some e\<close> the error text.\<close>

definition validateAlias :: "string option \<Rightarrow> string option" where
  "validateAlias alias =
     (case alias of
        None \<Rightarrow> None
      | Some a \<Rightarrow>
          if a = [] then None
          else if length a > 32 then Some ''Alias must be 32 characters or less''
          else if \<not> list_all (\<lambda>c. c \<in> set alias_chars \<or> is_space c) a
          then Some ''Alias can only contain letters, numbers, spaces, hyphens, and underscores''
          else None)"

subsection \<open>The document store\<close>

text \<open>
  The two collections of \<^verbatim>\<open>src/models/index.js\<close>. A document id (\<^verbatim>\<open>_id\<close>) is a natural
  number drawn from a counter. Store calls and chat replies are taken to succeed, and a
  handler runs from start to end without another handler in between.
\<close>

record wallet =
  wallet_id :: nat
  address :: string
  chainTicker :: string
  wallet_alias :: "string option"
  trackingUserIds :: "int list"
  moralisStreamId :: "string option"

record user =
  telegramId :: int
  username :: "string option"
  trackedWalletIds :: "nat list"

record state =
  users :: "user list"
  wallets :: "wallet list"
  next_id :: nat
  userCommandCounts :: "int \<Rightarrow> int list option"

definition initial_state :: state where
  "initial_state = \<lparr>users = [], wallets = [], next_id = 0, userCommandCounts = Map.empty\<rparr>"

text \<open>\<^verbatim>\<open>TrackedWallet.findOne({address, chainTicker})\<close>.\<close>

definition findOne :: "wallet list \<Rightarrow> string \<Rightarrow> string \<Rightarrow> wallet option" where
  "findOne ws a c = find (\<lambda>w. address w = a \<and> chainTicker w = c) ws"

text \<open>\<^verbatim>\<open>wallet.save()\<close> on a document read from the collection.\<close>

definition save :: "wallet \<Rightarrow> wallet list \<Rightarrow> wallet list" where
  "save w ws = map (\<lambda>w'. if wallet_id w' = wallet_id w then w else w') ws"

text \<open>\<^verbatim>\<open>TrackedWallet.deleteOne({_id})\<close>.\<close>

fun deleteOne :: "nat \<Rightarrow> wallet list \<Rightarrow> wallet list" where
  "deleteOne i [] = []"
| "deleteOne i (w # ws) = (if wallet_id w = i then ws else w # deleteOne i ws)"

text \<open>\<^verbatim>\<open>User.findOneAndUpdate({telegramId}, {telegramId, username}, {upsert: true})\<close>; an
  absent \<^verbatim>\<open>username\<close> leaves the stored one.\<close>

fun upsert_user :: "int \<Rightarrow> string option \<Rightarrow> user list \<Rightarrow> user list" where
  "upsert_user uid uname [] = [\<lparr>telegramId = uid, username = uname, trackedWalletIds = []\<rparr>]"
| "upsert_user uid uname (u # us) =
     (if telegramId u = uid
      then u\<lparr>username := (case uname of None \<Rightarrow> username u | Some n \<Rightarrow> Some n)\<rparr> # us
      else u # upsert_user uid uname us)"

text \<open>\<^verbatim>\<open>User.findOneAndUpdate({telegramId}, {$addToSet: {trackedWalletIds: id}})\<close> and the
  same with \<^verbatim>\<open>$pull\<close>: the first user with that id is updated.\<close>

fun update_user :: "int \<Rightarrow> (user \<Rightarrow> user) \<Rightarrow> user list \<Rightarrow> user list" where
  "update_user uid f [] = []"
| "update_user uid f (u # us) =
     (if telegramId u = uid then f u # us else u # update_user uid f us)"

definition addToSet :: "nat \<Rightarrow> user \<Rightarrow> user" where
  "addToSet i u =
     (if i \<in> set (trackedWalletIds u) then u
      else u\<lparr>trackedWalletIds := trackedWalletIds u @ [i]\<rparr>)"

definition pull :: "nat \<Rightarrow> user \<Rightarrow> user" where
  "pull i u = u\<lparr>trackedWalletIds := filter (\<lambda>j. j \<noteq> i) (trackedWalletIds u)\<rparr>"

subsection \<open>Rate limiting\<close>

text \<open>\<^verbatim>\<open>checkRateLimit\<close>; \<open>now\<close> is the value of \<^verbatim>\<open>Date.now()\<close>. The array pushed to is the one
  stored in the map.\<close>

definition checkRateLimit ::
  "config \<Rightarrow> int \<Rightarrow> int \<Rightarrow> (int \<Rightarrow> int list option) \<Rightarrow> bool \<times> (int \<Rightarrow> int list option)" where
  "checkRateLimit cfg now userId counts =
     (let timestamps = (case counts userId of None \<Rightarrow> [] | Some ts \<Rightarrow> ts);
          filtered = filter (\<lambda>ts. now - ts < rateLimitWindowMs cfg) timestamps
      in if length filtered \<ge> rateLimitMaxRequests cfg
         then (False, counts(userId \<mapsto> filtered))
         else (True, counts(userId \<mapsto> filtered @ [now])))"

subsection \<open>Stream registrar (\<^verbatim>\<open>moralis.service.js\<close>)\<close>

text \<open>
  The HTTP requests the service issues, and what comes back: a response with its status and
  its body (\<^verbatim>\<open>response.data\<close>), or no response (network error, time-out). \<^verbatim>\<open>axios\<close> throws on
  a status outside 2xx, which the service catches like any other error. The body is read as
  far as the handlers look at it: \<open>EmptyBody\<close> is a falsy body (no body, the empty text,
  \<^verbatim>\<open>null\<close>, \<^verbatim>\<open>false\<close>, \<^verbatim>\<open>0\<close>), \<open>StreamData i\<close> any other body with its \<^verbatim>\<open>id\<close> field, \<open>None\<close>
  when it has none. An id is a string, as in the provider's interface.
\<close>

datatype call =
    CreateStream string string string
  | DeleteStream string bool

datatype response_data = EmptyBody | StreamData "string option"

datatype http_outcome = Response nat response_data | NoResponse

text \<open>\<^verbatim>\<open>createStream(address, chainTicker, webhookUrl, description)\<close>: the calls issued and the
  value returned, \<^verbatim>\<open>response.data\<close> on status 200 or 201 and \<^verbatim>\<open>null\<close> (\<open>None\<close>) otherwise.\<close>

definition createStream ::
  "http_outcome \<Rightarrow> string \<Rightarrow> string \<Rightarrow> string \<Rightarrow> call list \<times> response_data option" where
  "createStream http a chain webhookUrl =
     (case map_of CHAIN_CONFIG (toUpperCase chain) of
        None \<Rightarrow> ([], None)
      | Some chainConfig \<Rightarrow>
          ([CreateStream a chain webhookUrl],
           case http of
             Response status data \<Rightarrow>
               if status = 200 \<or> status = 201 then Some data else None
           | NoResponse \<Rightarrow> None))"

text \<open>\<^verbatim>\<open>!streamData\<close> and \<^verbatim>\<open>streamData.id\<close> on the value \<^verbatim>\<open>createStream\<close> returns.\<close>

definition falsy :: "response_data option \<Rightarrow> bool" where
  "falsy streamData = (streamData = None \<or> streamData = Some EmptyBody)"

definition id_of :: "response_data option \<Rightarrow> string option" where
  "id_of streamData = (case streamData of Some (StreamData i) \<Rightarrow> i | _ \<Rightarrow> None)"

text \<open>\<^verbatim>\<open>deleteStream(streamId, isSolana)\<close>.\<close>

definition deleteStream :: "http_outcome \<Rightarrow> string \<Rightarrow> bool \<Rightarrow> call list \<times> bool" where
  "deleteStream http streamId isSolana =
     ([DeleteStream streamId isSolana],
      case http of
        Response status _ \<Rightarrow> status = 200 \<or> status = 204
      | NoResponse \<Rightarrow> False)"

subsection \<open>Command handlers (\<^verbatim>\<open>bot.service.js\<close>)\<close>

text \<open>\<^verbatim>\<open>text.split(/\s+/)\<close>.\<close>

function split_ws :: "string \<Rightarrow> string list" where
  "split_ws s =
     (case dropWhile (\<lambda>c. \<not> is_space c) s of
        [] \<Rightarrow> [s]
      | c # rest \<Rightarrow> takeWhile (\<lambda>c. \<not> is_space c) s # split_ws (dropWhile is_space rest))"
  by pat_completeness auto
termination
proof (relation "measure length")
  fix s :: string and c rest
  assume d: "dropWhile (\<lambda>c. \<not> is_space c) s = c # rest"
  have "length (dropWhile is_space rest) \<le> length rest"
    by (rule length_dropWhile_le)
  moreover have "length (c # rest) \<le> length s"
    unfolding d [symmetric] by (rule length_dropWhile_le)
  ultimately show "(dropWhile is_space rest, s) \<in> measure length"
    by simp
qed simp

declare split_ws.simps [simp del]

text \<open>\<^verbatim>\<open>args.join(' ')\<close>.\<close>

fun join_space :: "string list \<Rightarrow> string" where
  "join_space [] = []"
| "join_space [x] = x"
| "join_space (x # y # ys) = x @ '' '' @ join_space (y # ys)"

text \<open>The incoming update: \<^verbatim>\<open>ctx.from.id\<close>, \<^verbatim>\<open>ctx.from.username\<close>, \<^verbatim>\<open>ctx.message.text\<close>, and
  the clock at the time the handler runs.\<close>

record ctx =
  from_id :: int
  from_username :: "string option"
  text_of :: string
  now :: int

text \<open>The final message of a handler. The messages that name the wallet carry the chain
  ticker and the normalized address shown in them.\<close>

datatype reply =
    RateLimited
  | InvalidFormat
  | UnsupportedChain string
  | Rejected string
  | AlreadyTracking
  | NowTracking string string
  | StreamFailed
  | TrackingStarted string string
  | NotTracking
  | StoppedTracking string string

text \<open>Lines 123 to 160 of the \<^verbatim>\<open>/track\<close> handler: the arguments, the chain, the alias and the
  address are checked in this order; \<open>Inl\<close> is the reply of an early return, \<open>Inr\<close> the
  chain ticker, the normalized address and the alias.\<close>

definition track_args ::
  "platform \<Rightarrow> config \<Rightarrow> string \<Rightarrow> reply + (string \<times> string \<times> string option)" where
  "track_args P cfg txt =
     (let args = drop 1 (split_ws txt) in
      if length args < 2 then Inl InvalidFormat
      else
        let chain = toUpperCase (args ! 0);
            a = args ! 1;
            joined = join_space (drop 2 args);
            alias = (if joined = [] then None else Some joined)
        in if chain \<notin> set (supported cfg) then Inl (UnsupportedChain chain)
           else (case validateAlias alias of
                   Some e \<Rightarrow> Inl (Rejected e)
                 | None \<Rightarrow>
                (case validateAddress P a chain of
                   Inl e \<Rightarrow> Inl (Rejected e)
                 | Inr normalizedAddress \<Rightarrow> Inr (chain, normalizedAddress, alias))))"

text \<open>Lines 165 to 260 of the \<^verbatim>\<open>/track\<close> handler: the user is upserted, the wallet looked
  up under the lower-cased normalized address, and then either the user is added to the
  record found, or a stream is created and, if that succeeds, the record.\<close>

definition track_store ::
  "config \<Rightarrow> http_outcome \<Rightarrow> int \<Rightarrow> string option \<Rightarrow> string \<Rightarrow> string \<Rightarrow> string option \<Rightarrow>
     state \<Rightarrow> state \<times> reply \<times> call list" where
  "track_store cfg http userId uname chain normalizedAddress alias s =
     (let s1 = s\<lparr>users := upsert_user userId uname (users s)\<rparr> in
      case findOne (wallets s1) (toLowerCase normalizedAddress) chain of
        Some wallet \<Rightarrow>
          if userId \<in> set (trackingUserIds wallet) then (s1, AlreadyTracking, [])
          else
            let wallet' = wallet\<lparr>trackingUserIds := trackingUserIds wallet @ [userId]\<rparr>
            in (s1\<lparr>wallets := save wallet' (wallets s1),
                    users := update_user userId (addToSet (wallet_id wallet)) (users s1)\<rparr>,
                NowTracking chain normalizedAddress, [])
      | None \<Rightarrow>
          let webhookUrl = webhookPublicUrl cfg @ webhookPath cfg;
              created = createStream http normalizedAddress chain webhookUrl
          in if falsy (snd created) then (s1, StreamFailed, fst created)
             else
               let wallet = \<lparr>wallet_id = next_id s1,
                              address = toLowerCase normalizedAddress,
                              chainTicker = chain,
                              wallet_alias = alias,
                              trackingUserIds = [userId],
                              moralisStreamId = id_of (snd created)\<rparr>
               in (s1\<lparr>wallets := wallets s1 @ [wallet],
                       next_id := Suc (next_id s1),
                       users := update_user userId (addToSet (wallet_id wallet)) (users s1)\<rparr>,
                   TrackingStarted chain normalizedAddress, fst created))"

text \<open>The \<^verbatim>\<open>/track\<close> handler.\<close>

definition track :: "platform \<Rightarrow> config \<Rightarrow> http_outcome \<Rightarrow> ctx \<Rightarrow> state \<Rightarrow> state \<times> reply \<times> call list"
  where
  "track P cfg http ctx s =
     (case checkRateLimit cfg (now ctx) (from_id ctx) (userCommandCounts s) of
        (allowed, counts) \<Rightarrow>
          let s0 = s\<lparr>userCommandCounts := counts\<rparr> in
          if \<not> allowed then (s0, RateLimited, [])
          else (case track_args P cfg (text_of ctx) of
                  Inl r \<Rightarrow> (s0, r, [])
                | Inr (chain, normalizedAddress, alias) \<Rightarrow>
                    track_store cfg http (from_id ctx) (from_username ctx)
                      chain normalizedAddress alias s0))"

text \<open>Lines 306 to 326 of the \<^verbatim>\<open>/untrack\<close> handler.\<close>

definition untrack_args :: "platform \<Rightarrow> string \<Rightarrow> reply + (string \<times> string)" where
  "untrack_args P txt =
     (let args = drop 1 (split_ws txt) in
      if length args < 2 then Inl InvalidFormat
      else
        let chain = toUpperCase (args ! 0); a = args ! 1
        in (case validateAddress P a chain of
              Inl e \<Rightarrow> Inl (Rejected e)
            | Inr normalizedAddress \<Rightarrow> Inr (chain, normalizedAddress)))"

text \<open>Lines 329 to 378 of the \<^verbatim>\<open>/untrack\<close> handler. The stream is deleted only when the
  stored id is truthy (neither \<^verbatim>\<open>null\<close> nor the empty string), and the result of
  \<^verbatim>\<open>deleteStream\<close> is not looked at.\<close>

definition untrack_store ::
  "http_outcome \<Rightarrow> int \<Rightarrow> string \<Rightarrow> string \<Rightarrow> state \<Rightarrow> state \<times> reply \<times> call list" where
  "untrack_store http userId chain normalizedAddress s =
     (case findOne (wallets s) (toLowerCase normalizedAddress) chain of
        None \<Rightarrow> (s, NotTracking, [])
      | Some wallet \<Rightarrow>
          if userId \<notin> set (trackingUserIds wallet) then (s, NotTracking, [])
          else
            let remaining = filter (\<lambda>i. i \<noteq> userId) (trackingUserIds wallet) in
            if remaining = [] then
              let calls =
                (case moralisStreamId wallet of
                   None \<Rightarrow> []
                 | Some streamId \<Rightarrow>
                     if streamId = [] then []
                     else fst (deleteStream http streamId (chain = ''SOL'')))
              in (s\<lparr>wallets := deleteOne (wallet_id wallet) (wallets s),
                     users := update_user userId (pull (wallet_id wallet)) (users s)\<rparr>,
                  StoppedTracking chain normalizedAddress, calls)
            else
              (s\<lparr>wallets := save (wallet\<lparr>trackingUserIds := remaining\<rparr>) (wallets s),
                 users := update_user userId (pull (wallet_id wallet)) (users s)\<rparr>,
               StoppedTracking chain normalizedAddress, []))"

text \<open>The \<^verbatim>\<open>/untrack\<close> handler.\<close>

definition untrack :: "platform \<Rightarrow> config \<Rightarrow> http_outcome \<Rightarrow> ctx \<Rightarrow> state \<Rightarrow> state \<times> reply \<times> call list"
  where
  "untrack P cfg http ctx s =
     (case checkRateLimit cfg (now ctx) (from_id ctx) (userCommandCounts s) of
        (allowed, counts) \<Rightarrow>
          let s0 = s\<lparr>userCommandCounts := counts\<rparr> in
          if \<not> allowed then (s0, RateLimited, [])
          else (case untrack_args P (text_of ctx) of
                  Inl r \<Rightarrow> (s0, r, [])
                | Inr (chain, normalizedAddress) \<Rightarrow>
                    untrack_store http (from_id ctx) chain normalizedAddress s0))"

subsection \<open>Sequences of commands\<close>

datatype command = Track | Untrack

text \<open>One command as it reaches the bot: which handler, the update, and the outcome of the
  HTTP request the handler makes, if it makes one.\<close>

type_synonym event = "command \<times> ctx \<times> http_outcome"

definition step :: "platform \<Rightarrow> config \<Rightarrow> event \<Rightarrow> state \<Rightarrow> state \<times> reply \<times> call list" where
  "step P cfg ev s =
     (case ev of
        (Track, ctx, http) \<Rightarrow> track P cfg http ctx s
      | (Untrack, ctx, http) \<Rightarrow> untrack P cfg http ctx s)"

fun run :: "platform \<Rightarrow> config \<Rightarrow> event list \<Rightarrow> state \<Rightarrow> state" where
  "run P cfg [] s = s"
| "run P cfg (ev # evs) s = run P cfg evs (fst (step P cfg ev s))"

subsection \<open>The subscriptions the commands ask for\<close>

text \<open>
  The subscriber sets, written from the commands that are issued and not from the handlers
  or from what they answer. A command counts when the rate limiter lets it through and its
  arguments validate; the pair it names is the chain ticker with the lower-cased normalized
  address.
\<close>

type_synonym subscriptions = "string \<times> string \<Rightarrow> int set"

definition let_through :: "config \<Rightarrow> ctx \<Rightarrow> state \<Rightarrow> bool" where
  "let_through cfg ctx s = fst (checkRateLimit cfg (now ctx) (from_id ctx) (userCommandCounts s))"

definition request_of :: "platform \<Rightarrow> config \<Rightarrow> command \<Rightarrow> ctx \<Rightarrow> (string \<times> string) option" where
  "request_of P cfg cmd ctx =
     (case cmd of
        Track \<Rightarrow>
          (case track_args P cfg (text_of ctx) of
             Inl r \<Rightarrow> None
           | Inr (c, n, al) \<Rightarrow> Some (c, toLowerCase n))
      | Untrack \<Rightarrow>
          (case untrack_args P (text_of ctx) of
             Inl r \<Rightarrow> None
           | Inr (c, n) \<Rightarrow> Some (c, toLowerCase n)))"

text \<open>The provider answers a create request with a new stream: status 200 or 201 and a
  body that is not empty.\<close>

definition provisioned :: "http_outcome \<Rightarrow> bool" where
  "provisioned http =
     (case http of
        Response status data \<Rightarrow> (status = 200 \<or> status = 201) \<and> data \<noteq> EmptyBody
      | NoResponse \<Rightarrow> False)"

text \<open>A subscribe adds the user to the set of the pair, unless the set is empty and no
  stream can be had for the pair; an unsubscribe removes the user.\<close>

definition subscribe :: "int \<Rightarrow> string \<times> string \<Rightarrow> http_outcome \<Rightarrow> subscriptions \<Rightarrow> subscriptions"
  where
  "subscribe uid k http S =
     (if S k = {} \<and> \<not> provisioned http then S else S(k := insert uid (S k)))"

definition unsubscribe :: "int \<Rightarrow> string \<times> string \<Rightarrow> subscriptions \<Rightarrow> subscriptions" where
  "unsubscribe uid k S = S(k := S k - {uid})"

definition requested :: "platform \<Rightarrow> config \<Rightarrow> state \<Rightarrow> event \<Rightarrow> subscriptions \<Rightarrow> subscriptions"
  where
  "requested P cfg s ev S =
     (case ev of (cmd, ctx, http) \<Rightarrow>
        if \<not> let_through cfg ctx s then S
        else (case request_of P cfg cmd ctx of
                None \<Rightarrow> S
              | Some k \<Rightarrow>
                  (case cmd of
                     Track \<Rightarrow> subscribe (from_id ctx) k http S
                   | Untrack \<Rightarrow> unsubscribe (from_id ctx) k S)))"

text \<open>
  The streams the provider holds for the bot, kept from the requests and their answers: a
  create request answered with status 200 or 201 and a non-empty id opens that stream, a
  delete request for an id closes it.
\<close>

fun provider_effect :: "http_outcome \<Rightarrow> call \<Rightarrow> string multiset \<Rightarrow> string multiset" where
  "provider_effect (Response status (StreamData (Some i))) (CreateStream _ _ _) M =
     (if (status = 200 \<or> status = 201) \<and> i \<noteq> [] then add_mset i M else M)"
| "provider_effect _ (CreateStream _ _ _) M = M"
| "provider_effect _ (DeleteStream i _) M = M - {#i#}"

text \<open>What an observer of the commands and of the traffic with the provider knows.\<close>

record observer =
  subscribers :: subscriptions
  open_streams :: "string multiset"

definition initial_observer :: observer where
  "initial_observer = \<lparr>subscribers = (\<lambda>k. {}), open_streams = {#}\<rparr>"

text \<open>The observer at one command: \<open>s\<close> is the state the command finds, \<open>calls\<close> the requests
  the handler issues.\<close>

definition observe ::
  "platform \<Rightarrow> config \<Rightarrow> state \<Rightarrow> event \<Rightarrow> call list \<Rightarrow> observer \<Rightarrow> observer" where
  "observe P cfg s ev calls G =
     \<lparr>subscribers = requested P cfg s ev (subscribers G),
      open_streams = fold (provider_effect (snd (snd ev))) calls (open_streams G)\<rparr>"

fun run_observed :: "platform \<Rightarrow> config \<Rightarrow> event list \<Rightarrow> state \<times> observer \<Rightarrow> state \<times> observer"
  where
  "run_observed P cfg [] sG = sG"
| "run_observed P cfg (ev # evs) sG =
     (case step P cfg ev (fst sG) of
        (s', r, calls) \<Rightarrow>
          run_observed P cfg evs (s', observe P cfg (fst sG) ev calls (snd sG)))"

text \<open>The stream ids the records hold; \<^verbatim>\<open>null\<close> and the empty string are no id.\<close>

definition stream_ids :: "wallet \<Rightarrow> string list" where
  "stream_ids w =
     (case moralisStreamId w of None \<Rightarrow> [] | Some i \<Rightarrow> if i = [] then [] else [i])"

definition stored_streams :: "wallet list \<Rightarrow> string multiset" where
  "stored_streams ws = mset (concat (map stream_ids ws))"

text \<open>Document ids are unique and below the counter, and no two records share a key.\<close>

definition wallet_key :: "wallet \<Rightarrow> string \<times> string" where
  "wallet_key w = (chainTicker w, address w)"

definition unique_records :: "state \<Rightarrow> bool" where
  "unique_records s =
     (distinct (map wallet_id (wallets s)) \<and>
      (\<forall>w \<in> set (wallets s). wallet_id w < next_id s) \<and>
      distinct (map wallet_key (wallets s)))"

text \<open>The records whose key is the given (chain, address) pair.\<close>

definition records_for :: "state \<Rightarrow> string \<Rightarrow> string \<Rightarrow> wallet list" where
  "records_for s c a = filter (\<lambda>w. chainTicker w = c \<and> address w = a) (wallets s)"

text \<open>The store and the observer agree: the records are unique, none has an empty
  subscriber list, the subscribers of every pair are those of its record (none when there
  is no record), and the open streams are the stored ones.\<close>

definition consistent :: "state \<Rightarrow> observer \<Rightarrow> bool" where
  "consistent s G =
     (unique_records s \<and>
      (\<forall>w \<in> set (wallets s). trackingUserIds w \<noteq> []) \<and>
      (\<forall>c a. subscribers G (c, a) =
               (case findOne (wallets s) a c of
                  None \<Rightarrow> {}
                | Some w \<Rightarrow> set (trackingUserIds w))) \<and>
      open_streams G = stored_streams (wallets s))"

subsection \<open>A concrete setting\<close>

text \<open>
  The address libraries on the spellings of one EVM address, the first example of EIP-55
  (its lower-case and upper-case hex forms and its checksummed form are addresses and have
  the checksummed form as normal form), and on two base58 strings that differ in the case of
  their first letter only, with the 32 bytes each decodes to. Every other string is
  refused, here.
\<close>

definition token_program :: string where
  "token_program = ''TokenkegQfeZyiNwAJbNbGKPFXCWuBvf9Ss623VQ5DA''"

definition token_program_t :: string where
  "token_program_t = ''tokenkegQfeZyiNwAJbNbGKPFXCWuBvf9Ss623VQ5DA''"

definition example_platform :: platform where
  "example_platform =
     \<lparr>isAddress = (\<lambda>a. a \<in> set [''0x5aaeb6053f3e94c9b9a09f33669435e7ef1beaed'',
                                   ''0x5AAEB6053F3E94C9B9A09F33669435E7EF1BEAED'',
                                   ''0x5aAeb6053F3E94C9b9A09f33669435E7Ef1BeAed'']),
      getAddress = (\<lambda>a. if a \<in> set [''0x5aaeb6053f3e94c9b9a09f33669435e7ef1beaed'',
                                       ''0x5AAEB6053F3E94C9B9A09F33669435E7EF1BEAED'',
                                       ''0x5aAeb6053F3E94C9b9A09f33669435E7Ef1BeAed'']
                         then Some ''0x5aAeb6053F3E94C9b9A09f33669435E7Ef1BeAed'' else None),
      bs58_decode =
        (\<lambda>a. if a = ''TokenkegQfeZyiNwAJbNbGKPFXCWuBvf9Ss623VQ5DA''
              then Some [6, 221, 246, 225, 215, 101, 161, 147, 217, 203, 225, 70, 206, 235, 121,
                         172, 28, 180, 133, 237, 95, 91, 55, 145, 58, 140, 245, 133, 126, 255, 0,
                         169]
              else if a = ''tokenkegQfeZyiNwAJbNbGKPFXCWuBvf9Ss623VQ5DA''
              then Some [13, 69, 124, 15, 110, 16, 167, 171, 172, 158, 87, 69, 125, 76, 180, 168,
                         46, 177, 1, 22, 143, 89, 233, 52, 158, 233, 249, 133, 126, 255, 0, 169]
              else None)\<rparr>"

definition vault_address :: string where
  "vault_address = ''0x5aAeb6053F3E94C9b9A09f33669435E7Ef1BeAed''"

text \<open>Updates from two users, one second apart.\<close>

definition alice_track :: ctx where
  "alice_track = \<lparr>from_id = 1001, from_username = Some ''alice'',
                   text_of = ''/track eth 0x5aaeb6053f3e94c9b9a09f33669435e7ef1beaed Vault'',
                   now = 1000\<rparr>"

definition bob_track :: ctx where
  "bob_track = \<lparr>from_id = 1002, from_username = None,
                 text_of = ''/track ETH 0x5AAEB6053F3E94C9B9A09F33669435E7EF1BEAED'',
                 now = 2000\<rparr>"

definition alice_untrack :: ctx where
  "alice_untrack = \<lparr>from_id = 1001, from_username = Some ''alice'',
                     text_of = ''/untrack ETH 0x5aAeb6053F3E94C9b9A09f33669435E7Ef1BeAed'',
                     now = 3000\<rparr>"

definition bob_untrack :: ctx where
  "bob_untrack = \<lparr>from_id = 1002, from_username = None,
                   text_of = ''/untrack ETH 0x5aaeb6053f3e94c9b9a09f33669435e7ef1beaed'',
                   now = 4000\<rparr>"

definition vault_record :: "int list \<Rightarrow> wallet" where
  "vault_record ids =
     \<lparr>wallet_id = 0, address = ''0x5aaeb6053f3e94c9b9a09f33669435e7ef1beaed'',
      chainTicker = ''ETH'', wallet_alias = Some ''Vault'', trackingUserIds = ids,
      moralisStreamId = Some ''stream-1''\<rparr>"

text \<open>A store that holds the one record, and the commands of the two users in a row, the
  provider answering the first and not the others.\<close>

definition vault_state :: "int list \<Rightarrow> state" where
  "vault_state ids =
     \<lparr>users = [], wallets = [vault_record ids], next_id = 1, userCommandCounts = Map.empty\<rparr>"

definition example_trace :: "event list" where
  "example_trace =
     [(Track, alice_track, Response 200 (StreamData (Some ''stream-1''))),
      (Track, bob_track, NoResponse),
      (Untrack, alice_untrack, NoResponse)]"

definition example_run :: "state \<times> observer" where
  "example_run =
     run_observed example_platform default_config example_trace (initial_state, initial_observer)"

text \<open>Commands on the two base58 strings: Alice tracks the first, Bob the second, and
  Alice then stops tracking the first.\<close>

definition alice_track_sol :: ctx where
  "alice_track_sol = \<lparr>from_id = 1001, from_username = Some ''alice'',
                       text_of = ''/track SOL TokenkegQfeZyiNwAJbNbGKPFXCWuBvf9Ss623VQ5DA'',
                       now = 1000\<rparr>"

definition bob_track_sol :: ctx where
  "bob_track_sol = \<lparr>from_id = 1002, from_username = None,
                     text_of = ''/track SOL tokenkegQfeZyiNwAJbNbGKPFXCWuBvf9Ss623VQ5DA'',
                     now = 2000\<rparr>"

definition alice_untrack_sol :: ctx where
  "alice_untrack_sol = \<lparr>from_id = 1001, from_username = Some ''alice'',
                         text_of = ''/untrack SOL TokenkegQfeZyiNwAJbNbGKPFXCWuBvf9Ss623VQ5DA'',
                         now = 3000\<rparr>"

text \<open>The record the first of them creates, and the store after the first and after the
  second command, the provider answering every request.\<close>

definition token_record :: "int list \<Rightarrow> wallet" where
  "token_record ids =
     \<lparr>wallet_id = 0, address = ''tokenkegqfezyinwajbnbgkpfxcwubvf9ss623vq5da'',
      chainTicker = ''SOL'', wallet_alias = None, trackingUserIds = ids,
      moralisStreamId = Some ''stream-7''\<rparr>"

definition sol_state_1 :: state where
  "sol_state_1 =
     fst (track example_platform default_config (Response 200 (StreamData (Some ''stream-7'')))
            alice_track_sol initial_state)"

definition sol_state_2 :: state where
  "sol_state_2 =
     fst (track example_platform default_config (Response 200 (StreamData (Some ''stream-8'')))
            bob_track_sol sol_state_1)"

text \<open>The store after a first \<^verbatim>\<open>/track\<close> of Alice that the provider answers with status 200
  and a body without \<^verbatim>\<open>id\<close>.\<close>

definition no_id_state :: state where
  "no_id_state =
     fst (track example_platform default_config (Response 200 (StreamData None))
            alice_track initial_state)"

subsection \<open>SHA-256 and HMAC (the \<^verbatim>\<open>crypto\<close> module)\<close>

text \<open>
  \<^verbatim>\<open>crypto.createHmac('sha256', key).update(text).digest('hex')\<close>, after FIPS 180-4 and
  RFC 2104. A 32-bit word is a natural number below \<open>2 ^ 32\<close>, with the wrap-around of
  every addition written out; a byte is a natural number below 256.
\<close>

unbundle bit_operations_syntax




























subsection \<open>JSON values and \<^verbatim>\<open>JSON.stringify\<close>\<close>

text \<open>
  The request body as \<^verbatim>\<open>express.json()\<close> hands it to the handler: a parsed JSON value. An
  object is the list of its properties in the order JavaScript enumerates them, each name
  once. A number is held as the text that \<^verbatim>\<open>Number.prototype.toString\<close> gives for it, which
  is what \<^verbatim>\<open>JSON.stringify\<close> prints: \<^verbatim>\<open>1500\<close>, \<^verbatim>\<open>-2\<close>, \<^verbatim>\<open>0.5\<close>, \<^verbatim>\<open>1e+21\<close>; zero is \<^verbatim>\<open>0\<close>.
\<close>

datatype json =
    JNull
  | JBool bool
  | JNumber string
  | JString string
  | JArray "json list"
  | JObject "(string \<times> json) list"



fun join_comma :: "string list \<Rightarrow> string" where
  "join_comma [] = []"
| "join_comma [x] = x"
| "join_comma (x # y # ys) = x @ '','' @ join_comma (y # ys)"


subsection \<open>JavaScript values read from the body\<close>

text \<open>Truthiness, and the own property \<open>k\<close> of a value that is not \<^verbatim>\<open>null\<close>. The names the
  receiver reads are own properties of objects only.\<close>

definition truthy :: "json \<Rightarrow> bool" where
  "truthy j =
     (case j of
        JNull \<Rightarrow> False
      | JBool b \<Rightarrow> b
      | JNumber n \<Rightarrow> n \<noteq> ''0''
      | JString s \<Rightarrow> s \<noteq> []
      | _ \<Rightarrow> True)"

definition field :: "string \<Rightarrow> json \<Rightarrow> json option" where
  "field k j = (case j of JObject kvs \<Rightarrow> map_of kvs k | _ \<Rightarrow> None)"

text \<open>
  \<^verbatim>\<open>Number(s) > 0\<close> for a string (ECMAScript StringToNumber): surrounding white space is
  dropped; the text is an unsigned \<^verbatim>\<open>0x\<close>, \<^verbatim>\<open>0o\<close> or \<^verbatim>\<open>0b\<close> literal, or a decimal literal with an
  optional sign, an integer part, a fraction and an exponent, or \<^verbatim>\<open>Infinity\<close>; anything else is
  NaN. A decimal \<open>m \<times> 10\<^sup>x\<close> rounds to a positive double when it exceeds \<open>2\<^sup>-\<^sup>1\<^sup>0\<^sup>7\<^sup>5\<close>, half of the
  least positive double.
\<close>

definition is_decimal_digit :: "char \<Rightarrow> bool" where
  "is_decimal_digit c = (c \<in> set ''0123456789'')"

definition exponent_of :: "string \<Rightarrow> int option" where
  "exponent_of s =
     (if s = [] then Some 0
      else if hd s \<notin> set ''eE'' then None
      else if take 1 (tl s) = ''-'' then map_option (\<lambda>n. - int n) (parse_digits 10 (drop 2 s))
      else if take 1 (tl s) = ''+'' then map_option int (parse_digits 10 (drop 2 s))
      else map_option int (parse_digits 10 (tl s)))"

definition decimal_positive :: "string \<Rightarrow> bool" where
  "decimal_positive u =
     (if u = ''Infinity'' then True
      else
        let integer_part = takeWhile is_decimal_digit u;
            rest = dropWhile is_decimal_digit u;
            fraction = (if take 1 rest = ''.'' then takeWhile is_decimal_digit (tl rest) else []);
            exponent = (if take 1 rest = ''.'' then dropWhile is_decimal_digit (tl rest) else rest)
        in if integer_part = [] \<and> fraction = [] then False
           else
             (case exponent_of exponent of
                None \<Rightarrow> False
              | Some e \<Rightarrow>
                  (case parse_digits 10 (integer_part @ fraction) of
                     None \<Rightarrow> False
                   | Some m \<Rightarrow>
                       let x = e - int (length fraction) in
                       0 < m \<and> (0 \<le> x \<or> (10 :: int) ^ nat (- x) < int m * 2 ^ 1075))))"

definition string_positive :: "string \<Rightarrow> bool" where
  "string_positive s =
     (let t = trim s in
      if t = [] then False
      else if take 2 t \<in> set [''0x'', ''0X'']
      then (case parse_digits 16 (drop 2 t) of None \<Rightarrow> False | Some n \<Rightarrow> 0 < n)
      else if take 2 t \<in> set [''0o'', ''0O'']
      then (case parse_digits 8 (drop 2 t) of None \<Rightarrow> False | Some n \<Rightarrow> 0 < n)
      else if take 2 t \<in> set [''0b'', ''0B'']
      then (case parse_digits 2 (drop 2 t) of None \<Rightarrow> False | Some n \<Rightarrow> 0 < n)
      else if hd t = CHR ''-'' then False
      else if hd t = CHR ''+'' then decimal_positive (tl t)
      else decimal_positive t)"

text \<open>
  The text of a value as an element of an array that is converted to a string
  (\<^verbatim>\<open>Array.prototype.join\<close>): \<^verbatim>\<open>null\<close> gives the empty text, an array the texts of its
  elements with commas between, an object \<^verbatim>\<open>[object Object]\<close>; an object with an own
  property \<^verbatim>\<open>toString\<close> (which is no function, in a parsed body) cannot be converted:
  \<open>None\<close> is the TypeError.
\<close>

fun element_text :: "json \<Rightarrow> string option" where
  "element_text JNull = Some []"
| "element_text (JBool b) = Some (if b then ''true'' else ''false'')"
| "element_text (JNumber n) = Some n"
| "element_text (JString s) = Some s"
| "element_text (JArray xs) = map_option join_comma (those (map element_text xs))"
| "element_text (JObject kvs) =
     (if map_of kvs ''toString'' = None then Some ''[object Object]'' else None)"

text \<open>
  A property value \<^verbatim>\<open>v\<close> can be written into a template literal as \<^verbatim>\<open>${v || d}\<close>, or handed to
  \<^verbatim>\<open>parseInt\<close>: a missing or falsy value gives way to the default, a truthy one is converted
  to a string, which throws for an object with an own property \<^verbatim>\<open>toString\<close> and for an array
  that holds one.
\<close>

definition converts :: "json option \<Rightarrow> bool" where
  "converts v =
     (case v of
        None \<Rightarrow> True
      | Some x \<Rightarrow> \<not> truthy x \<or> element_text x \<noteq> None)"

text \<open>\<^verbatim>\<open>v > 0\<close>: the value is converted to a number first.\<close>

definition greater_than_zero :: "json \<Rightarrow> js_error + bool" where
  "greater_than_zero v =
     (case v of
        JNull \<Rightarrow> Inr False
      | JBool b \<Rightarrow> Inr b
      | JNumber n \<Rightarrow> Inr (string_positive n)
      | JString s \<Rightarrow> Inr (string_positive s)
      | JArray xs \<Rightarrow>
          (case element_text v of
             None \<Rightarrow> Inl TypeError
           | Some t \<Rightarrow> Inr (string_positive t))
      | JObject kvs \<Rightarrow> if map_of kvs ''toString'' = None then Inr False else Inl TypeError)"

subsection \<open>The webhook receiver\<close>

text \<open>
  The payload at the types of the provider's schema, as the formatters and
  \<^verbatim>\<open>processTransaction\<close> read it once it has been taken from the body.
\<close>

record txData =
  tx_hash :: "string option"
  fromAddress :: "string option"
  toAddress :: "string option"
  tx_value :: "string option"
  gasPrice :: "string option"
  gas :: "string option"

record tokenTransfer =
  transactionHash :: "string option"
  transfer_from :: "string option"
  transfer_to :: "string option"
  transfer_value :: "string option"
  tokenAddress :: "string option"
  tokenName :: "string option"
  tokenSymbol :: "string option"
  tokenDecimals :: "string option"

record webhookData =
  chainId :: "string option"
  tag :: "string option"
  txs :: "txData list"
  erc20Transfers :: "tokenTransfer list"

text \<open>A field that only the text of an alert shows, read at its type in the schema.\<close>

definition string_field :: "string \<Rightarrow> json \<Rightarrow> string option" where
  "string_field k j = (case field k j of Some (JString s) \<Rightarrow> Some s | _ \<Rightarrow> None)"

text \<open>\<^verbatim>\<open>(txData.k || '').toLowerCase()\<close> can be taken of a string and of a falsy or missing
  value, read as \<open>None\<close>; a truthy value of another type has no \<^verbatim>\<open>toLowerCase\<close>, and \<^verbatim>\<open>null\<close>
  has no properties: both throw a TypeError.\<close>

definition address_field :: "string \<Rightarrow> json \<Rightarrow> js_error + string option" where
  "address_field k j =
     (if j = JNull then Inl TypeError
      else (case field k j of
              None \<Rightarrow> Inr None
            | Some v \<Rightarrow>
                if \<not> truthy v then Inr None
                else (case v of JString s \<Rightarrow> Inr (Some s) | _ \<Rightarrow> Inl TypeError)))"

text \<open>A transaction as \<^verbatim>\<open>processTransaction\<close> and \<^verbatim>\<open>formatNativeTransaction\<close> read it.\<close>

definition txData_of :: "json \<Rightarrow> js_error + txData" where
  "txData_of j =
     (case address_field ''fromAddress'' j of
        Inl e \<Rightarrow> Inl e
      | Inr sender \<Rightarrow>
          (case address_field ''toAddress'' j of
             Inl e \<Rightarrow> Inl e
           | Inr recipient \<Rightarrow>
               Inr \<lparr>tx_hash = string_field ''hash'' j,
                    fromAddress = sender,
                    toAddress = recipient,
                    tx_value = string_field ''value'' j,
                    gasPrice = string_field ''gasPrice'' j,
                    gas = string_field ''gas'' j\<rparr>))"

text \<open>A token transfer as \<^verbatim>\<open>formatTokenTransaction\<close> reads it. The formatter throws on
  \<^verbatim>\<open>null\<close>, on a sender or recipient that has no \<^verbatim>\<open>toLowerCase\<close>, and on a hash, token
  address, name, symbol or number of decimals that cannot be converted to a string.\<close>

definition tokenTransfer_of :: "json \<Rightarrow> js_error + tokenTransfer" where
  "tokenTransfer_of j =
     (case address_field ''from'' j of
        Inl e \<Rightarrow> Inl e
      | Inr sender \<Rightarrow>
          (case address_field ''to'' j of
             Inl e \<Rightarrow> Inl e
           | Inr recipient \<Rightarrow>
               if \<not> (converts (field ''transactionHash'' j) \<and> converts (field ''address'' j) \<and>
                       converts (field ''tokenName'' j) \<and> converts (field ''tokenSymbol'' j) \<and>
                       converts (field ''tokenDecimals'' j))
               then Inl TypeError
               else
                 Inr \<lparr>transactionHash = string_field ''transactionHash'' j,
                      transfer_from = sender,
                      transfer_to = recipient,
                      transfer_value = string_field ''value'' j,
                      tokenAddress = string_field ''address'' j,
                      tokenName = string_field ''tokenName'' j,
                      tokenSymbol = string_field ''tokenSymbol'' j,
                      tokenDecimals = string_field ''tokenDecimals'' j\<rparr>))"

text \<open>
  \<^verbatim>\<open>webhookData.txs || []\<close>, then \<^verbatim>\<open>txs.length === 0\<close> and \<^verbatim>\<open>txs.map\<close>: the transactions of the
  body, none for a falsy or missing value and for an object whose \<^verbatim>\<open>length\<close> is 0; any other
  value that is no array has no function \<^verbatim>\<open>map\<close>: TypeError.
\<close>

definition txs_of :: "json \<Rightarrow> js_error + json list" where
  "txs_of body =
     (case field ''txs'' body of
        None \<Rightarrow> Inr []
      | Some v \<Rightarrow>
          if \<not> truthy v then Inr []
          else (case v of
                  JArray xs \<Rightarrow> Inr xs
                | JObject kvs \<Rightarrow>
                    if map_of kvs ''length'' = Some (JNumber ''0'') then Inr []
                    else Inl TypeError
                | _ \<Rightarrow> Inl TypeError))"

text \<open>
  \<^verbatim>\<open>webhookData.erc20Transfers && webhookData.erc20Transfers.length > 0\<close>, and the values the
  loop \<^verbatim>\<open>for (const tokenTransfer of webhookData.erc20Transfers)\<close> then runs over: the
  elements of a non-empty array, the characters of a non-empty string. An object can pass
  the test with its property \<^verbatim>\<open>length\<close>, and then the loop throws, as does the test when the
  property cannot be converted to a number. Everything else is sent as a native transaction.
\<close>

datatype transfers = Native | Tokens "json list" | Throws

definition transfers_of :: "json \<Rightarrow> transfers" where
  "transfers_of body =
     (case field ''erc20Transfers'' body of
        None \<Rightarrow> Native
      | Some v \<Rightarrow>
          if \<not> truthy v then Native
          else (case v of
                  JArray xs \<Rightarrow> if xs = [] then Native else Tokens xs
                | JString s \<Rightarrow> Tokens (map (\<lambda>c. JString [c]) s)
                | JObject kvs \<Rightarrow>
                    (case map_of kvs ''length'' of
                       None \<Rightarrow> Native
                     | Some l \<Rightarrow>
                         (case greater_than_zero l of
                            Inl e \<Rightarrow> Throws
                          | Inr positive \<Rightarrow> if positive then Throws else Native))
                | _ \<Rightarrow> Native))"

text \<open>The transfers that \<^verbatim>\<open>formatTokenTransaction\<close> renders before the first one it throws
  on, and whether there is such a one.\<close>

fun readable_transfers :: "json list \<Rightarrow> tokenTransfer list \<times> bool" where
  "readable_transfers [] = ([], False)"
| "readable_transfers (j # js) =
     (case tokenTransfer_of j of
        Inl e \<Rightarrow> ([], True)
      | Inr t \<Rightarrow> (t # fst (readable_transfers js), snd (readable_transfers js)))"



text \<open>An alert is the formatter call that renders it: \<^verbatim>\<open>formatNativeTransaction\<close> or
  \<^verbatim>\<open>formatTokenTransaction\<close> with the transaction, the chain ticker and the tracked
  address. A delivery is one call of \<^verbatim>\<open>sendAlertToBot(userId, message)\<close>, which catches its
  own errors.\<close>

datatype message =
    NativeTransaction txData string string
  | TokenTransaction tokenTransfer string string

type_synonym delivery = "int \<times> message"

text \<open>The first chain of the table whose \<^verbatim>\<open>moralisChain\<close> is the identifier.\<close>

definition ticker_of_chainId :: "string \<Rightarrow> string option" where
  "ticker_of_chainId cid =
     map_option fst (find (\<lambda>entry. moralisChain (snd entry) = cid) CHAIN_CONFIG)"

definition or_empty :: "string option \<Rightarrow> string" where
  "or_empty s = (case s of None \<Rightarrow> [] | Some x \<Rightarrow> x)"

text \<open>The deliveries for one address of a transaction (the body of the loop over
  \<^verbatim>\<open>trackedAddresses\<close>).\<close>

definition deliveries_for ::
  "wallet list \<Rightarrow> txData \<Rightarrow> webhookData \<Rightarrow> string \<Rightarrow> string \<Rightarrow> delivery list" where
  "deliveries_for ws tx wd ticker a =
     (case findOne ws a ticker of
        None \<Rightarrow> []
      | Some wallet \<Rightarrow>
          if trackingUserIds wallet = [] then []
          else
            let subscribers = trackingUserIds wallet in
            if erc20Transfers wd \<noteq> []
            then concat (map (\<lambda>tokenTransfer.
                                map (\<lambda>userId. (userId, TokenTransaction tokenTransfer ticker a))
                                  subscribers)
                          (erc20Transfers wd))
            else map (\<lambda>userId. (userId, NativeTransaction tx ticker a)) subscribers)"

text \<open>The array \<^verbatim>\<open>trackedAddresses\<close> of \<^verbatim>\<open>processTransaction\<close>: the lower-cased sender, then
  the lower-cased recipient, each pushed when it is not empty.\<close>

definition trackedAddresses_of :: "txData \<Rightarrow> string list" where
  "trackedAddresses_of tx =
     (let fromAddr = toLowerCase (or_empty (fromAddress tx));
          toAddr = toLowerCase (or_empty (toAddress tx))
      in (if fromAddr \<noteq> [] then [fromAddr] else []) @
         (if toAddr \<noteq> [] then [toAddr] else []))"

text \<open>\<^verbatim>\<open>processTransaction(txData, webhookData)\<close>: the deliveries it makes, in order.\<close>

definition processTransaction :: "wallet list \<Rightarrow> txData \<Rightarrow> webhookData \<Rightarrow> delivery list" where
  "processTransaction ws tx wd =
     (case ticker_of_chainId (or_empty (chainId wd)) of
        None \<Rightarrow> []
      | Some ticker \<Rightarrow>
          concat (map (deliveries_for ws tx wd ticker) (trackedAddresses_of tx)))"

text \<open>The subscriber list stored for an address, and the number of alerts an event makes
  for each subscriber of an address: one per token transfer, or one for the native
  transaction when there is no token transfer.\<close>

definition subscribers_at :: "wallet list \<Rightarrow> string \<Rightarrow> string \<Rightarrow> int list" where
  "subscribers_at ws ticker a =
     (case findOne ws a ticker of None \<Rightarrow> [] | Some w \<Rightarrow> trackingUserIds w)"

definition alerts_per_subscriber :: "webhookData \<Rightarrow> nat" where
  "alerts_per_subscriber wd =
     (if erc20Transfers wd = [] then 1 else length (erc20Transfers wd))"

definition deliveries_to :: "int \<Rightarrow> delivery list \<Rightarrow> nat" where
  "deliveries_to u ds = length (filter (\<lambda>d. fst d = u) ds)"




text \<open>
  \<^verbatim>\<open>processTransaction(tx, req.body)\<close> on the parsed body. An exception is caught inside the
  function: the deliveries made before it stay. When the chain is known and the addresses of
  the transaction can be read, the deliveries are those of \<open>processTransaction\<close> on the typed
  event (\<open>event_of\<close>, the body at the types of the schema), with the token transfers of the
  body or with none. \<^verbatim>\<open>formatNativeTransaction\<close> throws on a hash that cannot be converted to a
  string, before anything is sent; and when \<^verbatim>\<open>formatTokenTransaction\<close> throws on a transfer,
  the deliveries are those for the transfers before it, at the first address that has
  subscribers.
\<close>

definition readable_txs :: "json \<Rightarrow> txData list" where
  "readable_txs body =
     concat (map (\<lambda>tx. case txData_of tx of Inl e \<Rightarrow> [] | Inr txData \<Rightarrow> [txData])
               (case txs_of body of Inl e \<Rightarrow> [] | Inr values \<Rightarrow> values))"

definition event_of :: "json \<Rightarrow> tokenTransfer list \<Rightarrow> webhookData" where
  "event_of body transfers =
     \<lparr>chainId = string_field ''chainId'' body, tag = string_field ''tag'' body,
      txs = readable_txs body, erc20Transfers = transfers\<rparr>"

definition process_parsed :: "wallet list \<Rightarrow> json \<Rightarrow> json \<Rightarrow> delivery list" where
  "process_parsed ws tx body =
     (case ticker_of_chainId (or_empty (string_field ''chainId'' body)) of
        None \<Rightarrow> []
      | Some ticker \<Rightarrow>
          (case txData_of tx of
             Inl e \<Rightarrow> []
           | Inr txData \<Rightarrow>
               (case transfers_of body of
                  Native \<Rightarrow>
                    if converts (field ''hash'' tx)
                    then processTransaction ws txData (event_of body [])
                    else []
                | Throws \<Rightarrow> []
                | Tokens values \<Rightarrow>
                    if snd (readable_transfers values)
                    then (case find (\<lambda>a. subscribers_at ws ticker a \<noteq> [])
                                 (trackedAddresses_of txData) of
                            None \<Rightarrow> []
                          | Some a \<Rightarrow>
                              concat (map (\<lambda>tokenTransfer.
                                             map (\<lambda>userId.
                                                    (userId, TokenTransaction tokenTransfer ticker a))
                                               (subscribers_at ws ticker a))
                                        (fst (readable_transfers values))))
                    else processTransaction ws txData
                           (event_of body (fst (readable_transfers values))))))"


text \<open>A native transfer of the vault wallet to itself on Ethereum, and a request whose body
  was sent with a space after the colon.\<close>

definition self_transfer :: txData where
  "self_transfer =
     \<lparr>tx_hash = Some ''0xabc'',
      fromAddress = Some ''0x5aAeb6053F3E94C9b9A09f33669435E7Ef1BeAed'',
      toAddress = Some ''0x5aAeb6053F3E94C9b9A09f33669435E7Ef1BeAed'',
      tx_value = Some ''1500000000000000000'', gasPrice = Some ''1'', gas = Some ''21000''\<rparr>"

definition self_transfer_event :: webhookData where
  "self_transfer_event =
     \<lparr>chainId = Some ''0x1'', tag = Some ''ETH_0x5aAeb6'', txs = [self_transfer],
      erc20Transfers = []\<rparr>"



definition mistyped_event :: json where
  "mistyped_event =
     JObject [(''chainId'', JString ''0x1''),
              (''txs'', JArray [JObject [(''toAddress'',
                                            JString ''0x5aAeb6053F3E94C9b9A09f33669435E7Ef1BeAed'')],
                                JObject [(''fromAddress'', JNumber ''7''),
                                         (''toAddress'',
                                            JString ''0x5aAeb6053F3E94C9b9A09f33669435E7Ef1BeAed'')]])]"

section \<open>Properties\<close>

subsection \<open>Amount formatting\<close>

lemma digit_char_mod [simp]: "digit_char (n mod 10) = digit_char n"
  by (simp add: digit_char_def)

lemma fixed_digits_zero: "fixed_digits d 0 = replicate d (CHR ''0'')"
  by (induction d) (simp_all add: digit_char_def replicate_append_same)

lemma length_fixed_digits [simp]: "length (fixed_digits d r) = d"
  by (induction d arbitrary: r) simp_all

lemma length_string_of_nat_pos: "0 < length (string_of_nat n)"
  by (subst string_of_nat.simps) simp

lemma padStart0_string_of_nat:
  "r < 10 ^ d \<Longrightarrow> 0 < d \<Longrightarrow> padStart0 d (string_of_nat r) = fixed_digits d r"
proof (induction d arbitrary: r)
  case 0
  then show ?case by simp
next
  case (Suc d)
  show ?case
  proof (cases "r < 10")
    case True
    then have "string_of_nat r = [digit_char r]"
      by (subst string_of_nat.simps) simp
    moreover from True have "r div 10 = 0" by simp
    ultimately show ?thesis
      by (simp add: padStart0_def fixed_digits_zero)
  next
    case False
    then have s: "string_of_nat r = string_of_nat (r div 10) @ [digit_char r]"
      by (subst string_of_nat.simps) simp
    from Suc.prems have lt: "r div 10 < 10 ^ d"
      by (simp add: less_mult_imp_div_less mult.commute)
    from False have "0 < r div 10" by (simp add: div_greater_zero_iff)
    with lt have dpos: "0 < d" by (cases d) auto
    have "padStart0 (Suc d) (string_of_nat r) =
            padStart0 d (string_of_nat (r div 10)) @ [digit_char r]"
      by (simp add: s padStart0_def)
    with Suc.IH [OF lt dpos] show ?thesis by simp
  qed
qed

lemma take_fixed_digits:
  "k \<le> d \<Longrightarrow> take k (fixed_digits d r) = fixed_digits k (r div 10 ^ (d - k))"
proof (induction d arbitrary: r)
  case 0
  then show ?case by simp
next
  case (Suc d)
  show ?case
  proof (cases "k = Suc d")
    case True
    then show ?thesis by simp
  next
    case False
    with Suc.prems have le: "k \<le> d" by simp
    then have "Suc d - k = Suc (d - k)" by simp
    with Suc.IH [OF le, of "r div 10"] le show ?thesis
      by (simp add: div_mult2_eq)
  qed
qed


lemma digit_of_decimal:
  "digit_of c = Some d \<Longrightarrow> d < 10 \<Longrightarrow> c \<in> set ''0123456789''"
  by (auto simp: digit_of_def split: if_splits)

lemma digits_value_chars:
  "digits_value b acc s = Some v \<Longrightarrow> c \<in> set s \<Longrightarrow> \<exists>d. digit_of c = Some d \<and> d < b"
  by (induction s arbitrary: acc) (auto split: option.splits if_splits)

lemma parse_digits_decimal_chars:
  assumes "parse_digits 10 s = Some v" and "c \<in> set s"
  shows "c \<in> set ''0123456789''"
proof -
  from assms have "digits_value 10 0 s = Some v"
    by (simp add: parse_digits_def split: if_splits)
  from digits_value_chars [OF this assms(2)] show ?thesis
    by (blast intro: digit_of_decimal)
qed

lemma trim_id:
  assumes "\<And>c. c \<in> set s \<Longrightarrow> \<not> is_space c"
  shows "trim s = s"
proof -
  have "dropWhile is_space s = s"
    using assms by (cases s) simp_all
  moreover have "dropWhile is_space (rev s) = rev s"
    using assms by (cases "rev s") (simp, metis dropWhile_eq_self_iff hd_in_set list.distinct(1) set_rev)
  ultimately show ?thesis by (simp add: trim_def)
qed

lemma StringToBigInt_decimal:
  assumes p: "parse_digits 10 s = Some v"
  shows "StringToBigInt s = Some (int v)"
proof -
  have ch: "c \<in> set ''0123456789''" if "c \<in> set s" for c
    using parse_digits_decimal_chars [OF p that] .
  have ne: "s \<noteq> []"
    using p by (auto simp: parse_digits_def)
  have "\<not> is_space c" if "c \<in> set s" for c
    using ch [OF that] by (auto simp: is_space_def)
  then have t: "trim s = s" by (rule trim_id)
  from ne obtain a r where s: "s = a # r" by (cases s) auto
  have a: "a \<in> set ''0123456789''" using ch [of a] s by simp
  have nopre: "take 2 s \<notin> set [''0x'', ''0X'', ''0o'', ''0O'', ''0b'', ''0B'']"
  proof (cases r)
    case Nil
    with s show ?thesis by simp
  next
    case (Cons b r')
    have "b \<in> set ''0123456789''" using ch [of b] s Cons by simp
    with s Cons show ?thesis by auto
  qed
  from a s have sign: "hd s \<noteq> CHR ''+''" "hd s \<noteq> CHR ''-''" by auto
  from nopre sign ne p show ?thesis
    by (simp add: StringToBigInt_def t)
qed


lemma replicate_numeral: "replicate (numeral k) x = x # replicate (pred_numeral k) x"
  by (simp add: numeral_eq_Suc)

lemma decimalPart_take8:
  assumes "r < 10 ^ d"
  shows "take 8 (padStart0 d (string_of_nat r)) =
         padStart0 (min d 8) (string_of_nat (r div 10 ^ (d - 8)))"
proof (cases "d = 0")
  case True
  with assms have "r = 0" by simp
  with True show ?thesis
    by (simp add: padStart0_def string_of_nat.simps)
next
  case False
  then have dpos: "0 < d" by simp
  have lt: "r div 10 ^ (d - 8) < 10 ^ min d 8"
  proof (cases "d \<le> 8")
    case True
    with assms show ?thesis by (simp add: min_def)
  next
    case False
    then have "d = (d - 8) + 8" by simp
    then have "(10::nat) ^ d = 10 ^ (d - 8) * 10 ^ 8"
      by (metis power_add)
    with assms have "r div 10 ^ (d - 8) < 10 ^ 8"
      by (simp add: less_mult_imp_div_less mult.commute)
    with False show ?thesis by (simp add: min_def)
  qed
  have "take 8 (padStart0 d (string_of_nat r)) = take 8 (fixed_digits d r)"
    by (simp add: padStart0_string_of_nat [OF assms dpos])
  also have "\<dots> = fixed_digits (min d 8) (r div 10 ^ (d - 8))"
  proof (cases "d \<le> 8")
    case True
    then show ?thesis by (simp add: min_def)
  next
    case False
    then show ?thesis by (simp add: take_fixed_digits min_def)
  qed
  also have "\<dots> = padStart0 (min d 8) (string_of_nat (r div 10 ^ (d - 8)))"
    using padStart0_string_of_nat [OF lt] dpos by simp
  finally show ?thesis .
qed

lemma truncated_quotient:
  "(v div 10 ^ (d - 8)) div 10 ^ min d 8 = v div (10::nat) ^ d"
proof -
  have "(d - 8) + min d 8 = d" by simp
  then have "(10::nat) ^ d = 10 ^ (d - 8) * 10 ^ min d 8"
    by (metis power_add)
  then show ?thesis by (simp add: div_mult2_eq)
qed

lemma truncated_remainder:
  "(v div 10 ^ (d - 8)) mod 10 ^ min d 8 = (v mod (10::nat) ^ d) div 10 ^ (d - 8)"
proof -
  have "(d - 8) + min d 8 = d" by simp
  then have "(10::nat) ^ d = 10 ^ (d - 8) * 10 ^ min d 8"
    by (metis power_add)
  then show ?thesis by (simp add: mod_mult2_eq)
qed

lemma string_of_nat_0: "string_of_nat 0 = ''0''"
  by (simp add: string_of_nat.simps digit_char_def)

lemma strip_trailing_zeros_zero: "strip_trailing_zeros (padStart0 n ''0'') = []"
  by (simp add: strip_trailing_zeros_def padStart0_def)

lemma formatValue_try_decimal:
  assumes p: "parse_digits 10 s = Some v" and d: "d \<le> 22"
  shows "formatValue_try f s (Num (int d)) = Inr (exact_rendering (v div 10 ^ (d - 8)) (min d 8))"
proof -
  let ?p = "(10::nat) ^ d"
  let ?q = "v div ?p" and ?r = "v mod ?p"
  have big: "StringToBigInt s = Some (int v)"
    by (rule StringToBigInt_decimal [OF p])
  have pw: "BigInt_pow10 f (Num (int d)) = Inr (int ?p)"
    using d by (simp add: BigInt_pow10_def)
  have dv: "BigInt_div (int v) (int ?p) = Inr (int ?q)"
    by (simp add: BigInt_div_def zdiv_int sgn_if)
  have rm: "BigInt_rem (int v) (int ?p) = Inr (int ?r)"
    by (simp add: BigInt_rem_def zmod_int sgn_if)
  have rlt: "?r < ?p" by simp
  have tk: "take 8 (padStart0 d (string_of_nat ?r)) =
            padStart0 (min d 8) (string_of_nat ((v div 10 ^ (d - 8)) mod 10 ^ min d 8))"
    by (simp only: decimalPart_take8 [OF rlt] truncated_remainder)
  show ?thesis
  proof (cases "?q = 0 \<and> ?r = 0")
    case True
    then have "v = 0" using div_mult_mod_eq [of v ?p] by simp
    then show ?thesis
      using big pw dv rm
      by (simp add: formatValue_try_def exact_rendering_def strip_trailing_zeros_zero
          string_of_nat_0)
  next
    case False
    then show ?thesis
      using big pw dv rm tk
      by (auto simp add: formatValue_try_def exact_rendering_def BigInt_toString_def ToLength_def
          truncated_quotient Let_def)
  qed
qed

lemmas formatValue_eval =
  formatValue_def formatValue_try_def StringToBigInt_def trim_def is_space_def
  parse_digits_def digit_of_def BigInt_pow10_def BigInt_div_def BigInt_rem_def ToLength_def
  BigInt_toString_def padStart0_def strip_trailing_zeros_def string_of_nat.simps
  digit_char_def exact_rendering_def replicate_numeral

text \<open>
  C7, as the code has it: for a decimal digit string \<open>s\<close> denoting \<open>v\<close> and \<open>d \<le> 22\<close>
  decimals (the range in which the double \<^verbatim>\<open>10 ** d\<close> is the exact power),
  \<^verbatim>\<open>formatValue(s, d)\<close> is the exact rendering of \<open>v / 10 ^ d\<close> cut off (not rounded) after
  8 fractional digits, that is the exact rendering of \<open>v div 10 ^ (d - 8)\<close> with
  \<open>min d 8\<close> decimals: trailing zeros trimmed, no fractional part when those digits
  are all zero. The two amounts of the specification render as \<^verbatim>\<open>1.5\<close> and \<^verbatim>\<open>1\<close>.
\<close>

theorem formatValue_truncates_to_8_digits:
  "(\<forall>s v (d::nat). parse_digits 10 s = Some v \<and> d \<le> 22 \<longrightarrow>
      formatValue f s (Num (int d)) = Inr (exact_rendering (v div 10 ^ (d - 8)) (min d 8)))
   \<and> formatValue f ''1500000000000000000'' (Num 18) = Inr ''1.5''
   \<and> formatValue f ''1000000000000000000'' (Num 18) = Inr ''1''"
proof (intro conjI allI impI)
  fix s v and d :: nat
  assume "parse_digits 10 s = Some v \<and> d \<le> 22"
  then show "formatValue f s (Num (int d)) = Inr (exact_rendering (v div 10 ^ (d - 8)) (min d 8))"
    by (simp add: formatValue_def formatValue_try_decimal)
next
  show "formatValue f ''1500000000000000000'' (Num 18) = Inr ''1.5''"
    by (simp add: formatValue_eval)
next
  show "formatValue f ''1000000000000000000'' (Num 18) = Inr ''1''"
    by (simp add: formatValue_eval)
qed

text \<open>The theorem at \<^verbatim>\<open>formatValue("123456789123456789", 18)\<close>: the digits after the eighth
  are dropped.\<close>

theorem formatValue_truncates_to_8_digits_witness:
  "parse_digits 10 ''123456789123456789'' = Some 123456789123456789 \<and> (18::nat) \<le> 22
   \<and> formatValue exact_pow10 ''123456789123456789'' (Num 18) = Inr ''0.12345678''"
proof -
  have p: "parse_digits 10 ''123456789123456789'' = Some 123456789123456789 \<and> (18::nat) \<le> 22"
    by (simp add: parse_digits_def digit_of_def)
  have "formatValue exact_pow10 ''123456789123456789'' (Num (int 18)) =
          Inr (exact_rendering (123456789123456789 div 10 ^ (18 - 8)) (min 18 8))"
    using formatValue_truncates_to_8_digits [of exact_pow10] p by blast
  then have "formatValue exact_pow10 ''123456789123456789'' (Num 18) = Inr ''0.12345678''"
    by (simp add: exact_rendering_def padStart0_def strip_trailing_zeros_def
        string_of_nat.simps digit_char_def)
  with p show ?thesis by simp
qed

text \<open>C7 as stated fails: one base unit at 18 decimals is \<^verbatim>\<open>0.000000000000000001\<close>, and
  \<^verbatim>\<open>formatValue("1", 18)\<close> is \<^verbatim>\<open>0\<close>.\<close>

theorem formatValue_exact_counterexample:
  "parse_digits 10 ''1'' = Some 1
   \<and> formatValue exact_pow10 ''1'' (Num 18) = Inr ''0''
   \<and> exact_rendering 1 18 = ''0.000000000000000001''
   \<and> formatValue exact_pow10 ''1'' (Num 18) \<noteq> Inr (exact_rendering 1 18)"
  by (simp add: formatValue_eval)

text \<open>
  C10: \<^verbatim>\<open>formatValue\<close> returns a string for every value string and every decimals argument,
  no exception leaves it, and whenever a conversion to BigInt fails (the value is not an
  integer literal, or \<^verbatim>\<open>10 ** decimals\<close> is not an integer), or anything else in the body
  throws, the result is \<^verbatim>\<open>0\<close>.
\<close>

theorem formatValue_total:
  "(\<exists>s. formatValue f v d = Inr s)
   \<and> (StringToBigInt v = None \<longrightarrow> formatValue f v d = Inr ''0'')
   \<and> ((\<exists>e. BigInt_pow10 f d = Inl e) \<longrightarrow> formatValue f v d = Inr ''0'')
   \<and> ((\<exists>e. formatValue_try f v d = Inl e) \<longrightarrow> formatValue f v d = Inr ''0'')"
  by (auto simp: formatValue_def formatValue_try_def split: sum.splits option.splits)

text \<open>The theorem at a value that is not a number, with NaN decimals.\<close>

theorem formatValue_total_witness:
  "StringToBigInt ''12.5 ETH'' = None \<and> BigInt_pow10 exact_pow10 NaN = Inl RangeError
   \<and> formatValue_try exact_pow10 ''12.5 ETH'' NaN = Inl SyntaxError
   \<and> formatValue exact_pow10 ''12.5 ETH'' NaN = Inr ''0''"
proof -
  have a: "StringToBigInt ''12.5 ETH'' = None"
    by (simp add: StringToBigInt_def trim_def is_space_def parse_digits_def digit_of_def)
  have b: "BigInt_pow10 exact_pow10 NaN = Inl RangeError"
    by (simp add: BigInt_pow10_def)
  have c: "formatValue_try exact_pow10 ''12.5 ETH'' NaN = Inl SyntaxError"
    by (simp add: formatValue_try_def a)
  from a b c formatValue_total [of exact_pow10 "''12.5 ETH''" NaN] show ?thesis
    by simp
qed

subsection \<open>The store operations\<close>

lemma findOne_SomeD:
  "findOne ws a c = Some w \<Longrightarrow> w \<in> set ws \<and> address w = a \<and> chainTicker w = c"
  by (auto simp: findOne_def find_Some_iff)

lemma findOne_None_iff:
  "(findOne ws a c = None) = (\<forall>w \<in> set ws. \<not> (address w = a \<and> chainTicker w = c))"
  by (auto simp: findOne_def find_None_iff)

lemma findOne_unique:
  assumes "distinct (map wallet_key ws)" and "w \<in> set ws"
    and "address w = a" and "chainTicker w = c"
  shows "findOne ws a c = Some w"
proof (cases "findOne ws a c")
  case None
  with assms show ?thesis by (auto simp: findOne_None_iff)
next
  case (Some w')
  then have w': "w' \<in> set ws" "wallet_key w' = wallet_key w"
    using assms by (auto dest: findOne_SomeD simp: wallet_key_def)
  with assms(1,2) have "w' = w"
    by (meson distinct_map inj_onD)
  with Some show ?thesis by simp
qed

lemma findOne_Some_iff:
  "distinct (map wallet_key ws) \<Longrightarrow>
   (findOne ws a c = Some w) = (w \<in> set ws \<and> address w = a \<and> chainTicker w = c)"
  by (auto dest: findOne_SomeD intro: findOne_unique)

lemma map_id_save:
  "wallet_id w' = i \<Longrightarrow> map wallet_id (save w' ws) = map wallet_id ws"
  by (induction ws) (auto simp: save_def)

lemma save_unique:
  assumes "distinct (map wallet_id ws)" and "w \<in> set ws" and "wallet_id w' = wallet_id w"
  shows "save w' ws = map (\<lambda>x. if x = w then w' else x) ws"
proof -
  have "(wallet_id x = wallet_id w') = (x = w)" if "x \<in> set ws" for x
    using assms that by (metis distinct_map inj_onD)
  then show ?thesis by (simp add: save_def)
qed

lemma map_key_save:
  assumes "distinct (map wallet_id ws)" and "w \<in> set ws" and "wallet_id w' = wallet_id w"
    and "wallet_key w' = wallet_key w"
  shows "map wallet_key (save w' ws) = map wallet_key ws"
  unfolding save_unique [OF assms(1-3)] using assms(4) by (induction ws) auto

lemma set_save:
  assumes "distinct (map wallet_id ws)" and "w \<in> set ws" and "wallet_id w' = wallet_id w"
  shows "set (save w' ws) = insert w' (set ws - {w})"
  unfolding save_unique [OF assms] using assms(2) by auto

lemma deleteOne_filter:
  "distinct (map wallet_id ws) \<Longrightarrow> deleteOne i ws = filter (\<lambda>w. wallet_id w \<noteq> i) ws"
proof (induction ws)
  case Nil
  then show ?case by simp
next
  case (Cons w ws)
  show ?case
  proof (cases "wallet_id w = i")
    case True
    with Cons.prems have "i \<notin> wallet_id ` set ws" by auto
    then have "\<forall>x \<in> set ws. wallet_id x \<noteq> i" by blast
    then have "filter (\<lambda>w. wallet_id w \<noteq> i) ws = ws" by (simp add: filter_id_conv)
    with True show ?thesis by simp
  next
    case False
    with Cons show ?thesis by simp
  qed
qed

lemma deleteOne_unique:
  assumes "distinct (map wallet_id ws)" and "w \<in> set ws"
  shows "deleteOne (wallet_id w) ws = filter (\<lambda>x. x \<noteq> w) ws"
proof -
  have "(wallet_id x \<noteq> wallet_id w) = (x \<noteq> w)" if "x \<in> set ws" for x
    using assms that by (metis distinct_map inj_onD)
  then show ?thesis
    unfolding deleteOne_filter [OF assms(1)] by (auto intro: filter_cong)
qed

lemma findOne_save:
  assumes ids: "distinct (map wallet_id ws)" and keys: "distinct (map wallet_key ws)"
    and w: "w \<in> set ws" and i: "wallet_id w' = wallet_id w" and k: "wallet_key w' = wallet_key w"
  shows "findOne (save w' ws) a c = (if wallet_key w = (c, a) then Some w' else findOne ws a c)"
proof -
  have keys': "distinct (map wallet_key (save w' ws))"
    by (simp add: map_key_save [OF ids w i k] keys)
  have st: "set (save w' ws) = insert w' (set ws - {w})"
    by (rule set_save [OF ids w i])
  show ?thesis
  proof (cases "wallet_key w = (c, a)")
    case True
    with k st have "findOne (save w' ws) a c = Some w'"
      by (intro findOne_unique [OF keys']) (auto simp: wallet_key_def)
    with True show ?thesis by simp
  next
    case False
    have "findOne (save w' ws) a c = Some x \<longleftrightarrow> findOne ws a c = Some x" for x
      using False k st by (auto simp: findOne_Some_iff keys keys' wallet_key_def)
    then have "findOne (save w' ws) a c = findOne ws a c"
      by (metis option.exhaust)
    with False show ?thesis by simp
  qed
qed

lemma findOne_deleteOne:
  assumes ids: "distinct (map wallet_id ws)" and keys: "distinct (map wallet_key ws)"
    and w: "w \<in> set ws"
  shows "findOne (deleteOne (wallet_id w) ws) a c =
           (if wallet_key w = (c, a) then None else findOne ws a c)"
proof -
  let ?ws' = "filter (\<lambda>x. x \<noteq> w) ws"
  have d: "deleteOne (wallet_id w) ws = ?ws'"
    by (rule deleteOne_unique [OF ids w])
  have keys': "distinct (map wallet_key ?ws')"
    using keys by (simp add: distinct_map_filter)
  show ?thesis
  proof (cases "wallet_key w = (c, a)")
    case True
    have "x \<in> set ?ws' \<Longrightarrow> wallet_key x \<noteq> wallet_key w" for x
      using keys w by (auto simp: distinct_map dest: inj_onD)
    with True have "findOne ?ws' a c = None"
      by (auto simp: findOne_None_iff wallet_key_def)
    with True d show ?thesis by simp
  next
    case False
    have "findOne ?ws' a c = Some x \<longleftrightarrow> findOne ws a c = Some x" for x
      using False by (auto simp: findOne_Some_iff keys keys' wallet_key_def)
    then have "findOne ?ws' a c = findOne ws a c"
      by (metis option.exhaust)
    with False d show ?thesis by simp
  qed
qed

lemma findOne_append:
  "findOne (ws @ [w]) a c =
     (case findOne ws a c of
        Some x \<Rightarrow> Some x
      | None \<Rightarrow> if address w = a \<and> chainTicker w = c then Some w else None)"
  by (induction ws) (auto simp: findOne_def)

lemma findOne_append_new:
  assumes "findOne ws (address w) (chainTicker w) = None"
  shows "findOne (ws @ [w]) a c = (if wallet_key w = (c, a) then Some w else findOne ws a c)"
  using assms by (auto simp: findOne_append wallet_key_def split: option.splits)

subsection \<open>Handlers keep the store and the observer in agreement\<close>

lemma stored_streams_append:
  "stored_streams (ws @ [w]) = stored_streams ws + mset (stream_ids w)"
  by (simp add: stored_streams_def)

lemma stored_streams_save:
  assumes "distinct (map wallet_id ws)" and "w \<in> set ws" and "wallet_id w' = wallet_id w"
    and "moralisStreamId w' = moralisStreamId w"
  shows "stored_streams (save w' ws) = stored_streams ws"
proof -
  have "stream_ids w' = stream_ids w"
    using assms(4) by (simp add: stream_ids_def)
  then have "map stream_ids (map (\<lambda>x. if x = w then w' else x) ws) = map stream_ids ws"
    by (induction ws) auto
  then show ?thesis
    unfolding save_unique [OF assms(1-3)] stored_streams_def by (simp only:)
qed

lemma stored_streams_remove:
  assumes "distinct ws" and "w \<in> set ws"
  shows "stored_streams ws = stored_streams (filter (\<lambda>x. x \<noteq> w) ws) + mset (stream_ids w)"
  using assms
proof (induction ws)
  case Nil
  then show ?case by simp
next
  case (Cons x ws)
  show ?case
  proof (cases "x = w")
    case True
    with Cons.prems have "filter (\<lambda>x. x \<noteq> w) ws = ws"
      by (auto simp: filter_id_conv)
    with True show ?thesis by (simp add: stored_streams_def)
  next
    case False
    with Cons show ?thesis by (simp add: stored_streams_def)
  qed
qed

lemma stored_streams_deleteOne:
  assumes "distinct (map wallet_id ws)" and "w \<in> set ws"
  shows "stored_streams (deleteOne (wallet_id w) ws) = stored_streams ws - mset (stream_ids w)"
proof -
  from assms(1) have "distinct ws" by (simp add: distinct_map)
  from stored_streams_remove [OF this assms(2)] show ?thesis
    by (simp add: deleteOne_unique [OF assms])
qed

lemma createStream_known:
  assumes "map_of CHAIN_CONFIG (toUpperCase c) \<noteq> None"
  shows "fst (createStream http a c url) = [CreateStream a c url]"
    and "falsy (snd (createStream http a c url)) = (\<not> provisioned http)"
    and "provider_effect http (CreateStream a c url) M =
           (if provisioned http
            then M + mset (case id_of (snd (createStream http a c url)) of
                             None \<Rightarrow> [] | Some x \<Rightarrow> if x = [] then [] else [x])
            else M)"
proof -
  from assms obtain cc where cc: "map_of CHAIN_CONFIG (toUpperCase c) = Some cc"
    by auto
  show "fst (createStream http a c url) = [CreateStream a c url]"
    by (simp add: createStream_def cc)
  show "falsy (snd (createStream http a c url)) = (\<not> provisioned http)"
    by (cases http) (auto simp: createStream_def cc falsy_def provisioned_def)
  show "provider_effect http (CreateStream a c url) M =
           (if provisioned http
            then M + mset (case id_of (snd (createStream http a c url)) of
                             None \<Rightarrow> [] | Some x \<Rightarrow> if x = [] then [] else [x])
            else M)"
  proof (cases http)
    case NoResponse
    then show ?thesis by (simp add: provisioned_def)
  next
    case (Response st d)
    show ?thesis
    proof (cases d)
      case EmptyBody
      with Response show ?thesis by (simp add: provisioned_def)
    next
      case (StreamData i)
      with Response show ?thesis
        by (cases i) (auto simp: provisioned_def createStream_def cc id_of_def)
    qed
  qed
qed

lemma consistent_users [simp]:
  "consistent (s\<lparr>users := us\<rparr>) G = consistent s G"
  by (simp add: consistent_def unique_records_def)

lemma consistent_counts [simp]:
  "consistent (s\<lparr>userCommandCounts := m\<rparr>) G = consistent s G"
  by (simp add: consistent_def unique_records_def)

lemma consistent_observer_eq:
  "consistent s G \<Longrightarrow> subscribers G' = subscribers G \<Longrightarrow>
   open_streams G' = open_streams G \<Longrightarrow> consistent s G'"
  by (simp add: consistent_def)

lemma consistent_add_subscriber:
  assumes c: "consistent s G"
    and f: "findOne (wallets s) a0 c0 = Some w"
    and s': "wallets s' = save (w\<lparr>trackingUserIds := trackingUserIds w @ [uid]\<rparr>) (wallets s)"
            "next_id s' = next_id s"
    and G': "subscribers G' = (subscribers G)((c0, a0) := insert uid (subscribers G (c0, a0)))"
            "open_streams G' = open_streams G"
  shows "consistent s' G'"
proof -
  let ?w' = "w\<lparr>trackingUserIds := trackingUserIds w @ [uid]\<rparr>"
  let ?ws = "wallets s"
  from c have ids: "distinct (map wallet_id ?ws)" and keys: "distinct (map wallet_key ?ws)"
    and bound: "\<forall>x \<in> set ?ws. wallet_id x < next_id s"
    and ne: "\<forall>x \<in> set ?ws. trackingUserIds x \<noteq> []"
    and subs: "\<And>c a. subscribers G (c, a) =
                 (case findOne ?ws a c of None \<Rightarrow> {} | Some w \<Rightarrow> set (trackingUserIds w))"
    and str: "open_streams G = stored_streams ?ws"
    by (auto simp: consistent_def unique_records_def)
  from f have w: "w \<in> set ?ws" and kw: "wallet_key w = (c0, a0)"
    by (auto dest: findOne_SomeD simp: wallet_key_def)
  have i: "wallet_id ?w' = wallet_id w" and k: "wallet_key ?w' = wallet_key w"
    by (simp_all add: wallet_key_def)
  have st: "set (wallets s') = insert ?w' (set ?ws - {w})"
    by (simp add: s' set_save [OF ids w i])
  have u: "unique_records s'"
    using ids keys bound w st
    by (auto simp: unique_records_def s' map_id_save map_key_save [OF ids w i k])
  have n: "\<forall>x \<in> set (wallets s'). trackingUserIds x \<noteq> []"
    using ne st by auto
  have fo: "findOne (wallets s') a c =
              (if (c0, a0) = (c, a) then Some ?w' else findOne ?ws a c)" for a c
    by (simp add: s' findOne_save [OF ids keys w i k] kw)
  have sb: "subscribers G' (c, a) =
              (case findOne (wallets s') a c of None \<Rightarrow> {} | Some w \<Rightarrow> set (trackingUserIds w))"
    for c a
    using f by (auto simp: fo G' subs)
  have "open_streams G' = stored_streams (wallets s')"
    by (simp add: G' str s' stored_streams_save [OF ids w i])
  with u n sb show ?thesis
    by (simp add: consistent_def)
qed

lemma consistent_new_record:
  assumes c: "consistent s G"
    and f: "findOne (wallets s) a0 c0 = None"
    and w: "w = \<lparr>wallet_id = next_id s, address = a0, chainTicker = c0, wallet_alias = al,
                  trackingUserIds = [uid], moralisStreamId = i\<rparr>"
    and s': "wallets s' = wallets s @ [w]" "next_id s' = Suc (next_id s)"
    and G': "subscribers G' = (subscribers G)((c0, a0) := insert uid (subscribers G (c0, a0)))"
            "open_streams G' = open_streams G +
                mset (case i of None \<Rightarrow> [] | Some x \<Rightarrow> if x = [] then [] else [x])"
  shows "consistent s' G'"
proof -
  let ?ws = "wallets s"
  from c have ids: "distinct (map wallet_id ?ws)" and keys: "distinct (map wallet_key ?ws)"
    and bound: "\<forall>x \<in> set ?ws. wallet_id x < next_id s"
    and ne: "\<forall>x \<in> set ?ws. trackingUserIds x \<noteq> []"
    and subs: "\<And>c a. subscribers G (c, a) =
                 (case findOne ?ws a c of None \<Rightarrow> {} | Some w \<Rightarrow> set (trackingUserIds w))"
    and str: "open_streams G = stored_streams ?ws"
    by (auto simp: consistent_def unique_records_def)
  have kw: "wallet_key w = (c0, a0)"
    by (simp add: w wallet_key_def)
  from f have fresh: "wallet_key w \<notin> set (map wallet_key ?ws)"
    by (auto simp: findOne_None_iff wallet_key_def w)
  from bound have "wallet_id w \<notin> set (map wallet_id ?ws)"
    by (auto simp: w)
  with ids keys bound fresh have u: "unique_records s'"
    by (auto simp: unique_records_def s' w less_Suc_eq)
  have n: "\<forall>x \<in> set (wallets s'). trackingUserIds x \<noteq> []"
    using ne by (auto simp: s' w)
  have f': "findOne ?ws (address w) (chainTicker w) = None"
    using f by (simp add: w)
  have fo: "findOne (wallets s') a c = (if (c0, a0) = (c, a) then Some w else findOne ?ws a c)"
    for a c
    by (simp add: s' findOne_append_new [OF f'] kw)
  have sb: "subscribers G' (c, a) =
              (case findOne (wallets s') a c of None \<Rightarrow> {} | Some w \<Rightarrow> set (trackingUserIds w))"
    for c a
    using f by (auto simp: fo G' subs w)
  have "open_streams G' = stored_streams (wallets s')"
    by (simp add: G' str s' stored_streams_append stream_ids_def w)
  with u n sb show ?thesis
    by (simp add: consistent_def)
qed

lemma track_store_already:
  assumes "findOne (wallets s) (toLowerCase n) ch = Some w" and "uid \<in> set (trackingUserIds w)"
  shows "track_store cfg http uid uname ch n al s =
           (s\<lparr>users := upsert_user uid uname (users s)\<rparr>, AlreadyTracking, [])"
  using assms by (simp add: track_store_def)

lemma track_store_add:
  assumes "findOne (wallets s) (toLowerCase n) ch = Some w" and "uid \<notin> set (trackingUserIds w)"
  shows "track_store cfg http uid uname ch n al s =
           (s\<lparr>wallets := save (w\<lparr>trackingUserIds := trackingUserIds w @ [uid]\<rparr>) (wallets s),
              users := update_user uid (addToSet (wallet_id w))
                         (upsert_user uid uname (users s))\<rparr>,
            NowTracking ch n, [])"
  using assms by (simp add: track_store_def)

lemma track_store_failed:
  assumes "findOne (wallets s) (toLowerCase n) ch = None"
    and "falsy (snd (createStream http n ch (webhookPublicUrl cfg @ webhookPath cfg)))"
  shows "track_store cfg http uid uname ch n al s =
           (s\<lparr>users := upsert_user uid uname (users s)\<rparr>, StreamFailed,
            fst (createStream http n ch (webhookPublicUrl cfg @ webhookPath cfg)))"
  using assms by (simp add: track_store_def Let_def)

lemma track_store_new:
  assumes "findOne (wallets s) (toLowerCase n) ch = None"
    and "\<not> falsy (snd (createStream http n ch (webhookPublicUrl cfg @ webhookPath cfg)))"
  shows "track_store cfg http uid uname ch n al s =
           (s\<lparr>wallets := wallets s @
                  [\<lparr>wallet_id = next_id s, address = toLowerCase n, chainTicker = ch,
                    wallet_alias = al, trackingUserIds = [uid],
                    moralisStreamId =
                      id_of (snd (createStream http n ch (webhookPublicUrl cfg @ webhookPath cfg)))\<rparr>],
              next_id := Suc (next_id s),
              users := update_user uid (addToSet (next_id s))
                         (upsert_user uid uname (users s))\<rparr>,
            TrackingStarted ch n,
            fst (createStream http n ch (webhookPublicUrl cfg @ webhookPath cfg)))"
  using assms by (simp add: track_store_def Let_def)

lemma consistent_subscribers:
  assumes "consistent s G"
  shows "subscribers G (c, a) =
           (case findOne (wallets s) a c of None \<Rightarrow> {} | Some w \<Rightarrow> set (trackingUserIds w))"
    and "findOne (wallets s) a c = Some w \<Longrightarrow> subscribers G (c, a) \<noteq> {}"
proof -
  from assms show e: "subscribers G (c, a) =
           (case findOne (wallets s) a c of None \<Rightarrow> {} | Some w \<Rightarrow> set (trackingUserIds w))"
    by (simp add: consistent_def)
  assume f: "findOne (wallets s) a c = Some w"
  then have "w \<in> set (wallets s)" by (auto dest: findOne_SomeD)
  with assms have "trackingUserIds w \<noteq> []" by (simp add: consistent_def)
  with e f show "subscribers G (c, a) \<noteq> {}" by simp
qed

lemma track_store_consistent:
  assumes c: "consistent s G"
    and t: "track_store cfg http uid uname ch n al s = (s', r, calls)"
    and known: "map_of CHAIN_CONFIG (toUpperCase ch) \<noteq> None"
  shows "consistent s' \<lparr>subscribers = subscribe uid (ch, toLowerCase n) http (subscribers G),
                          open_streams = fold (provider_effect http) calls (open_streams G)\<rparr>"
proof (cases "findOne (wallets s) (toLowerCase n) ch")
  case (Some w)
  from consistent_subscribers [OF c] Some
  have sk: "subscribers G (ch, toLowerCase n) = set (trackingUserIds w)"
    and ne: "subscribers G (ch, toLowerCase n) \<noteq> {}"
    by simp_all
  show ?thesis
  proof (cases "uid \<in> set (trackingUserIds w)")
    case True
    from t have r: "calls = []"
      and s': "s' = s\<lparr>users := upsert_user uid uname (users s)\<rparr>"
      unfolding track_store_already [OF Some True] by simp_all
    from True sk have "insert uid (subscribers G (ch, toLowerCase n)) =
                         subscribers G (ch, toLowerCase n)"
      by auto
    then have e: "subscribe uid (ch, toLowerCase n) http (subscribers G) = subscribers G"
      by (simp add: subscribe_def)
    from c have "consistent s' G" by (simp add: s')
    then show ?thesis
      by (rule consistent_observer_eq) (simp_all add: r e)
  next
    case False
    from t have r: "calls = []"
      and s': "wallets s' = save (w\<lparr>trackingUserIds := trackingUserIds w @ [uid]\<rparr>) (wallets s)"
              "next_id s' = next_id s"
      unfolding track_store_add [OF Some False] by auto
    show ?thesis
      by (rule consistent_add_subscriber [OF c Some s']) (simp_all add: r subscribe_def ne)
  qed
next
  case None
  let ?url = "webhookPublicUrl cfg @ webhookPath cfg"
  note cs = createStream_known [OF known, of http n ?url]
  from consistent_subscribers(1) [OF c, of ch "toLowerCase n"] None
  have sk: "subscribers G (ch, toLowerCase n) = {}"
    by simp
  show ?thesis
  proof (cases "provisioned http")
    case False
    with cs(2) have fl: "falsy (snd (createStream http n ch ?url))" by simp
    from t have r: "calls = [CreateStream n ch ?url]"
      and s': "s' = s\<lparr>users := upsert_user uid uname (users s)\<rparr>"
      unfolding track_store_failed [OF None fl] cs(1) by simp_all
    from c have "consistent s' G" by (simp add: s')
    then show ?thesis
      by (rule consistent_observer_eq) (simp_all add: r cs(3) False subscribe_def sk)
  next
    case True
    with cs(2) have fl: "\<not> falsy (snd (createStream http n ch ?url))" by simp
    let ?w = "\<lparr>wallet_id = next_id s, address = toLowerCase n, chainTicker = ch,
                wallet_alias = al, trackingUserIds = [uid],
                moralisStreamId = id_of (snd (createStream http n ch ?url))\<rparr>"
    from t have r: "calls = [CreateStream n ch ?url]"
      and s': "wallets s' = wallets s @ [?w]" "next_id s' = Suc (next_id s)"
      unfolding track_store_new [OF None fl] cs(1) by auto
    show ?thesis
      by (rule consistent_new_record [OF c None refl s'])
        (simp_all add: r cs(3) True subscribe_def)
  qed
qed

lemma untrack_store_absent:
  assumes "findOne (wallets s) (toLowerCase n) ch = None \<or>
           (\<exists>w. findOne (wallets s) (toLowerCase n) ch = Some w \<and> uid \<notin> set (trackingUserIds w))"
  shows "untrack_store http uid ch n s = (s, NotTracking, [])"
  using assms by (auto simp: untrack_store_def)

lemma untrack_store_last:
  assumes "findOne (wallets s) (toLowerCase n) ch = Some w" and "uid \<in> set (trackingUserIds w)"
    and "filter (\<lambda>i. i \<noteq> uid) (trackingUserIds w) = []"
  shows "untrack_store http uid ch n s =
           (s\<lparr>wallets := deleteOne (wallet_id w) (wallets s),
              users := update_user uid (pull (wallet_id w)) (users s)\<rparr>,
            StoppedTracking ch n,
            map (\<lambda>i. DeleteStream i (ch = ''SOL'')) (stream_ids w))"
  using assms by (simp add: untrack_store_def deleteStream_def stream_ids_def split: option.splits)

lemma untrack_store_other:
  assumes "findOne (wallets s) (toLowerCase n) ch = Some w" and "uid \<in> set (trackingUserIds w)"
    and "filter (\<lambda>i. i \<noteq> uid) (trackingUserIds w) \<noteq> []"
  shows "untrack_store http uid ch n s =
           (s\<lparr>wallets := save (w\<lparr>trackingUserIds := filter (\<lambda>i. i \<noteq> uid) (trackingUserIds w)\<rparr>)
                            (wallets s),
              users := update_user uid (pull (wallet_id w)) (users s)\<rparr>,
            StoppedTracking ch n, [])"
  using assms by (simp add: untrack_store_def)

lemma consistent_remove_subscriber:
  assumes c: "consistent s G"
    and f: "findOne (wallets s) a0 c0 = Some w"
    and r: "filter (\<lambda>i. i \<noteq> uid) (trackingUserIds w) \<noteq> []"
    and s': "wallets s' =
               save (w\<lparr>trackingUserIds := filter (\<lambda>i. i \<noteq> uid) (trackingUserIds w)\<rparr>) (wallets s)"
            "next_id s' = next_id s"
    and G': "subscribers G' = (subscribers G)((c0, a0) := subscribers G (c0, a0) - {uid})"
            "open_streams G' = open_streams G"
  shows "consistent s' G'"
proof -
  let ?w' = "w\<lparr>trackingUserIds := filter (\<lambda>i. i \<noteq> uid) (trackingUserIds w)\<rparr>"
  let ?ws = "wallets s"
  from c have ids: "distinct (map wallet_id ?ws)" and keys: "distinct (map wallet_key ?ws)"
    and bound: "\<forall>x \<in> set ?ws. wallet_id x < next_id s"
    and ne: "\<forall>x \<in> set ?ws. trackingUserIds x \<noteq> []"
    and subs: "\<And>c a. subscribers G (c, a) =
                 (case findOne ?ws a c of None \<Rightarrow> {} | Some w \<Rightarrow> set (trackingUserIds w))"
    and str: "open_streams G = stored_streams ?ws"
    by (auto simp: consistent_def unique_records_def)
  from f have w: "w \<in> set ?ws" and kw: "wallet_key w = (c0, a0)"
    by (auto dest: findOne_SomeD simp: wallet_key_def)
  have i: "wallet_id ?w' = wallet_id w" and k: "wallet_key ?w' = wallet_key w"
    by (simp_all add: wallet_key_def)
  have st: "set (wallets s') = insert ?w' (set ?ws - {w})"
    by (simp add: s' set_save [OF ids w i])
  have u: "unique_records s'"
    using ids keys bound w st
    by (auto simp: unique_records_def s' map_id_save map_key_save [OF ids w i k])
  have n: "\<forall>x \<in> set (wallets s'). trackingUserIds x \<noteq> []"
    using ne st r by auto
  have fo: "findOne (wallets s') a c =
              (if (c0, a0) = (c, a) then Some ?w' else findOne ?ws a c)" for a c
    by (simp add: s' findOne_save [OF ids keys w i k] kw)
  have sb: "subscribers G' (c, a) =
              (case findOne (wallets s') a c of None \<Rightarrow> {} | Some w \<Rightarrow> set (trackingUserIds w))"
    for c a
    using f by (auto simp: fo G' subs)
  have "open_streams G' = stored_streams (wallets s')"
    by (simp add: G' str s' stored_streams_save [OF ids w i])
  with u n sb show ?thesis
    by (simp add: consistent_def)
qed

lemma consistent_delete_record:
  assumes c: "consistent s G"
    and f: "findOne (wallets s) a0 c0 = Some w"
    and r: "filter (\<lambda>i. i \<noteq> uid) (trackingUserIds w) = []"
    and s': "wallets s' = deleteOne (wallet_id w) (wallets s)" "next_id s' = next_id s"
    and G': "subscribers G' = (subscribers G)((c0, a0) := subscribers G (c0, a0) - {uid})"
            "open_streams G' = open_streams G - mset (stream_ids w)"
  shows "consistent s' G'"
proof -
  let ?ws = "wallets s"
  from c have ids: "distinct (map wallet_id ?ws)" and keys: "distinct (map wallet_key ?ws)"
    and bound: "\<forall>x \<in> set ?ws. wallet_id x < next_id s"
    and ne: "\<forall>x \<in> set ?ws. trackingUserIds x \<noteq> []"
    and subs: "\<And>c a. subscribers G (c, a) =
                 (case findOne ?ws a c of None \<Rightarrow> {} | Some w \<Rightarrow> set (trackingUserIds w))"
    and str: "open_streams G = stored_streams ?ws"
    by (auto simp: consistent_def unique_records_def)
  from f have w: "w \<in> set ?ws" and kw: "wallet_key w = (c0, a0)"
    by (auto dest: findOne_SomeD simp: wallet_key_def)
  have d: "wallets s' = filter (\<lambda>x. x \<noteq> w) ?ws"
    by (simp add: s' deleteOne_unique [OF ids w])
  have u: "unique_records s'"
    using ids keys bound
    by (auto simp: unique_records_def d s' distinct_map_filter)
  have n: "\<forall>x \<in> set (wallets s'). trackingUserIds x \<noteq> []"
    using ne by (auto simp: d)
  have fo: "findOne (wallets s') a c = (if (c0, a0) = (c, a) then None else findOne ?ws a c)"
    for a c
    by (simp add: s' findOne_deleteOne [OF ids keys w] kw)
  from r have e: "set (trackingUserIds w) - {uid} = {}"
    by (auto simp: filter_empty_conv)
  have sb: "subscribers G' (c, a) =
              (case findOne (wallets s') a c of None \<Rightarrow> {} | Some w \<Rightarrow> set (trackingUserIds w))"
    for c a
    using f e by (auto simp: fo G' subs)
  have "open_streams G' = stored_streams (wallets s')"
    by (simp add: G' str s' stored_streams_deleteOne [OF ids w])
  with u n sb show ?thesis
    by (simp add: consistent_def)
qed

lemma fold_delete_calls:
  "fold (provider_effect http) (map (\<lambda>i. DeleteStream i b) (stream_ids w)) M =
     M - mset (stream_ids w)"
  by (simp add: stream_ids_def split: option.splits)

lemma untrack_store_consistent:
  assumes c: "consistent s G"
    and t: "untrack_store http uid ch n s = (s', r, calls)"
  shows "consistent s' \<lparr>subscribers = unsubscribe uid (ch, toLowerCase n) (subscribers G),
                          open_streams = fold (provider_effect http) calls (open_streams G)\<rparr>"
proof (cases "\<exists>w. findOne (wallets s) (toLowerCase n) ch = Some w \<and> uid \<in> set (trackingUserIds w)")
  case False
  then have "untrack_store http uid ch n s = (s, NotTracking, [])"
    by (intro untrack_store_absent) (cases "findOne (wallets s) (toLowerCase n) ch", auto)
  with t have r: "calls = []" and s': "s' = s"
    by simp_all
  from False consistent_subscribers(1) [OF c, of ch "toLowerCase n"]
  have "uid \<notin> subscribers G (ch, toLowerCase n)"
    by (cases "findOne (wallets s) (toLowerCase n) ch") auto
  then have "subscribers G (ch, toLowerCase n) - {uid} = subscribers G (ch, toLowerCase n)"
    by auto
  then have e: "unsubscribe uid (ch, toLowerCase n) (subscribers G) = subscribers G"
    by (simp add: unsubscribe_def)
  from c have "consistent s' G" by (simp add: s')
  then show ?thesis
    by (rule consistent_observer_eq) (simp_all add: r e)
next
  case True
  then obtain w where f: "findOne (wallets s) (toLowerCase n) ch = Some w"
    and m: "uid \<in> set (trackingUserIds w)" by blast
  show ?thesis
  proof (cases "filter (\<lambda>i. i \<noteq> uid) (trackingUserIds w) = []")
    case True
    from t have r: "calls = map (\<lambda>i. DeleteStream i (ch = ''SOL'')) (stream_ids w)"
      and s': "wallets s' = deleteOne (wallet_id w) (wallets s)" "next_id s' = next_id s"
      unfolding untrack_store_last [OF f m True] by auto
    show ?thesis
      by (rule consistent_delete_record [OF c f True s'])
        (simp_all add: r unsubscribe_def fold_delete_calls)
  next
    case False
    from t have r: "calls = []"
      and s': "wallets s' =
                 save (w\<lparr>trackingUserIds := filter (\<lambda>i. i \<noteq> uid) (trackingUserIds w)\<rparr>) (wallets s)"
              "next_id s' = next_id s"
      unfolding untrack_store_other [OF f m False] by auto
    show ?thesis
      by (rule consistent_remove_subscriber [OF c f False s']) (simp_all add: r unsubscribe_def)
  qed
qed


lemma toUpperCase_char_idem: "toUpperCase_char (toUpperCase_char c) = toUpperCase_char c"
  by (simp add: toUpperCase_char_def)

lemma toUpperCase_idem: "toUpperCase (toUpperCase s) = toUpperCase s"
  by (simp add: toUpperCase_def toUpperCase_char_idem)

lemma validateAddress_chain:
  assumes "validateAddress P a c = Inr n"
  shows "map_of CHAIN_CONFIG (toUpperCase c) \<noteq> None"
proof -
  from assms have "toUpperCase c \<in> set [''ETH'', ''BSC'', ''POLYGON'', ''AVALANCHE'', ''ARBITRUM'',
                      ''OPTIMISM'', ''BASE'', ''SOL'']"
    by (auto simp: validateAddress_def Let_def split: if_splits)
  then show ?thesis
    by (auto simp: CHAIN_CONFIG_def)
qed

lemma track_args_chain:
  assumes "track_args P cfg txt = Inr (ch, n, al)"
  shows "map_of CHAIN_CONFIG (toUpperCase ch) \<noteq> None"
proof -
  from assms obtain a c where "ch = toUpperCase c" "validateAddress P a (toUpperCase c) = Inr n"
    by (auto simp: track_args_def Let_def split: if_splits option.splits sum.splits)
  with validateAddress_chain [of P a "toUpperCase c" n] show ?thesis
    by simp
qed

lemma track_cases:
  assumes "track P cfg http ctx s = (s', r, calls)"
  obtains (limited) "r = RateLimited" "calls = []" "wallets s' = wallets s" "next_id s' = next_id s"
      "\<not> let_through cfg ctx s"
  | (refused) "track_args P cfg (text_of ctx) = Inl r" "calls = []" "wallets s' = wallets s"
      "next_id s' = next_id s" "let_through cfg ctx s"
  | (stored) ch n al s0 where "track_args P cfg (text_of ctx) = Inr (ch, n, al)"
      "wallets s0 = wallets s" "next_id s0 = next_id s" "users s0 = users s"
      "track_store cfg http (from_id ctx) (from_username ctx) ch n al s0 = (s', r, calls)"
      "let_through cfg ctx s"
proof -
  obtain allowed counts where rl:
    "checkRateLimit cfg (now ctx) (from_id ctx) (userCommandCounts s) = (allowed, counts)"
    by (cases "checkRateLimit cfg (now ctx) (from_id ctx) (userCommandCounts s)")
  show ?thesis
  proof (cases allowed)
    case False
    with assms rl show ?thesis
      by (intro limited) (auto simp: track_def let_through_def)
  next
    case True
    show ?thesis
    proof (cases "track_args P cfg (text_of ctx)")
      case (Inl r0)
      with assms rl True show ?thesis
        by (intro refused) (auto simp: track_def let_through_def)
    next
      case (Inr req)
      obtain ch n al where req: "req = (ch, n, al)" by (cases req)
      with assms rl True Inr show ?thesis
        by (intro stored [of ch n al "s\<lparr>userCommandCounts := counts\<rparr>"])
          (auto simp: track_def let_through_def)
    qed
  qed
qed

lemma untrack_cases:
  assumes "untrack P cfg http ctx s = (s', r, calls)"
  obtains (limited) "r = RateLimited" "calls = []" "wallets s' = wallets s" "next_id s' = next_id s"
      "\<not> let_through cfg ctx s"
  | (refused) "untrack_args P (text_of ctx) = Inl r" "calls = []" "wallets s' = wallets s"
      "next_id s' = next_id s" "let_through cfg ctx s"
  | (stored) ch n s0 where "untrack_args P (text_of ctx) = Inr (ch, n)"
      "wallets s0 = wallets s" "next_id s0 = next_id s" "users s0 = users s"
      "untrack_store http (from_id ctx) ch n s0 = (s', r, calls)"
      "let_through cfg ctx s"
proof -
  obtain allowed counts where rl:
    "checkRateLimit cfg (now ctx) (from_id ctx) (userCommandCounts s) = (allowed, counts)"
    by (cases "checkRateLimit cfg (now ctx) (from_id ctx) (userCommandCounts s)")
  show ?thesis
  proof (cases allowed)
    case False
    with assms rl show ?thesis
      by (intro limited) (auto simp: untrack_def let_through_def)
  next
    case True
    show ?thesis
    proof (cases "untrack_args P (text_of ctx)")
      case (Inl r0)
      with assms rl True show ?thesis
        by (intro refused) (auto simp: untrack_def let_through_def)
    next
      case (Inr req)
      obtain ch n where req: "req = (ch, n)" by (cases req)
      with assms rl True Inr show ?thesis
        by (intro stored [of ch n "s\<lparr>userCommandCounts := counts\<rparr>"])
          (auto simp: untrack_def let_through_def)
    qed
  qed
qed

lemma track_args_reply:
  "track_args P cfg txt = Inl r \<Longrightarrow>
     r = InvalidFormat \<or> (\<exists>c. r = UnsupportedChain c) \<or> (\<exists>e. r = Rejected e)"
  by (auto simp: track_args_def Let_def split: if_splits option.splits sum.splits)

lemma untrack_args_reply:
  "untrack_args P txt = Inl r \<Longrightarrow> r = InvalidFormat \<or> (\<exists>e. r = Rejected e)"
  by (auto simp: untrack_args_def Let_def split: if_splits sum.splits)

lemma consistent_wallets_eq:
  "consistent s G \<Longrightarrow> wallets s' = wallets s \<Longrightarrow> next_id s' = next_id s \<Longrightarrow> consistent s' G"
  by (simp add: consistent_def unique_records_def)

lemma track_consistent:
  assumes c: "consistent s G" and t: "track P cfg http ctx s = (s', r, calls)"
  shows "consistent s' (observe P cfg s (Track, ctx, http) calls G)"
  using t
proof (cases rule: track_cases)
  case limited
  from c limited(3,4) have "consistent s' G" by (rule consistent_wallets_eq)
  then show ?thesis
    by (rule consistent_observer_eq) (simp_all add: observe_def requested_def limited)
next
  case refused
  from c refused(3,4) have "consistent s' G" by (rule consistent_wallets_eq)
  then show ?thesis
    by (rule consistent_observer_eq) (simp_all add: observe_def requested_def request_of_def refused)
next
  case (stored ch n al s0)
  from c stored(2,3) have "consistent s0 G" by (rule consistent_wallets_eq)
  from track_store_consistent [OF this stored(5) track_args_chain [OF stored(1)]] show ?thesis
    by (simp add: observe_def requested_def request_of_def stored)
qed

lemma untrack_consistent:
  assumes c: "consistent s G" and t: "untrack P cfg http ctx s = (s', r, calls)"
  shows "consistent s' (observe P cfg s (Untrack, ctx, http) calls G)"
  using t
proof (cases rule: untrack_cases)
  case limited
  from c limited(3,4) have "consistent s' G" by (rule consistent_wallets_eq)
  then show ?thesis
    by (rule consistent_observer_eq) (simp_all add: observe_def requested_def limited)
next
  case refused
  from c refused(3,4) have "consistent s' G" by (rule consistent_wallets_eq)
  then show ?thesis
    by (rule consistent_observer_eq) (simp_all add: observe_def requested_def request_of_def refused)
next
  case (stored ch n s0)
  from c stored(2,3) have "consistent s0 G" by (rule consistent_wallets_eq)
  from untrack_store_consistent [OF this stored(5)] show ?thesis
    by (simp add: observe_def requested_def request_of_def stored)
qed

lemma step_consistent:
  assumes "consistent s G" and "step P cfg ev s = (s', r, calls)"
  shows "consistent s' (observe P cfg s ev calls G)"
proof -
  obtain cmd ctx http where ev: "ev = (cmd, ctx, http)" by (cases ev)
  show ?thesis
  proof (cases cmd)
    case Track
    with assms ev show ?thesis by (auto simp: step_def intro: track_consistent)
  next
    case Untrack
    with assms ev show ?thesis by (auto simp: step_def intro: untrack_consistent)
  qed
qed

lemma run_observed_consistent:
  "consistent s G \<Longrightarrow> run_observed P cfg evs (s, G) = (s', G') \<Longrightarrow> consistent s' G'"
proof (induction evs arbitrary: s G)
  case Nil
  then show ?case by simp
next
  case (Cons ev evs)
  obtain s1 r calls where st: "step P cfg ev s = (s1, r, calls)"
    by (cases "step P cfg ev s")
  from Cons.prems(2) st have "run_observed P cfg evs (s1, observe P cfg s ev calls G) = (s', G')"
    by simp
  with step_consistent [OF Cons.prems(1) st] show ?case
    by (rule Cons.IH)
qed

lemma consistent_initial: "consistent initial_state initial_observer"
  by (simp add: consistent_def unique_records_def initial_state_def initial_observer_def
      findOne_def stored_streams_def)

subsection \<open>Single commands\<close>

lemma unique_records_wallets_eq:
  "unique_records s \<Longrightarrow> wallets s0 = wallets s \<Longrightarrow> next_id s0 = next_id s \<Longrightarrow> unique_records s0"
  by (simp add: unique_records_def)

lemma untrack_stopped:
  assumes "untrack P cfg http ctx s = (s', StoppedTracking ch n, calls)"
  obtains s0 where "wallets s0 = wallets s" "next_id s0 = next_id s" "users s0 = users s"
    "untrack_args P (text_of ctx) = Inr (ch, n)"
    "s0 = s\<lparr>userCommandCounts := snd (checkRateLimit cfg (now ctx) (from_id ctx) (userCommandCounts s))\<rparr>"
    "fst (checkRateLimit cfg (now ctx) (from_id ctx) (userCommandCounts s))"
    "untrack_store http (from_id ctx) ch n s0 = (s', StoppedTracking ch n, calls)"
proof -
  obtain allowed counts where rl:
    "checkRateLimit cfg (now ctx) (from_id ctx) (userCommandCounts s) = (allowed, counts)"
    by (cases "checkRateLimit cfg (now ctx) (from_id ctx) (userCommandCounts s)")
  from assms rl have al: allowed
    by (auto simp: untrack_def Let_def split: if_splits)
  from assms rl al obtain ch' n' where a: "untrack_args P (text_of ctx) = Inr (ch', n')"
    and st: "untrack_store http (from_id ctx) ch' n' (s\<lparr>userCommandCounts := counts\<rparr>) =
               (s', StoppedTracking ch n, calls)"
    using untrack_args_reply [of P "text_of ctx"]
    by (auto simp: untrack_def Let_def split: sum.splits)
  from st have "ch' = ch \<and> n' = n"
    by (auto simp: untrack_store_def Let_def split: option.splits if_splits)
  with a st rl al show ?thesis
    by (intro that [of "s\<lparr>userCommandCounts := counts\<rparr>"]) simp_all
qed

lemma subset_singleton_filter:
  "(set xs \<subseteq> {u}) = (filter (\<lambda>i. i \<noteq> u) xs = [])"
  by (auto simp: filter_empty_conv)

lemma untrack_store_effect:
  assumes u: "unique_records s"
    and f: "findOne (wallets s) (toLowerCase n) ch = Some w"
    and t: "untrack_store http uid ch n s = (s', StoppedTracking ch n, calls)"
  shows "uid \<in> set (trackingUserIds w) \<and>
         (if set (trackingUserIds w) \<subseteq> {uid}
          then wallets s' = filter (\<lambda>x. x \<noteq> w) (wallets s) \<and>
               findOne (wallets s') (toLowerCase n) ch = None \<and>
               calls = map (\<lambda>i. DeleteStream i (ch = ''SOL'')) (stream_ids w)
          else wallets s' =
                 map (\<lambda>x. if x = w
                          then w\<lparr>trackingUserIds := filter (\<lambda>i. i \<noteq> uid) (trackingUserIds w)\<rparr>
                          else x) (wallets s) \<and>
               findOne (wallets s') (toLowerCase n) ch =
                 Some (w\<lparr>trackingUserIds := filter (\<lambda>i. i \<noteq> uid) (trackingUserIds w)\<rparr>) \<and>
               calls = [])"
proof -
  from u have ids: "distinct (map wallet_id (wallets s))"
    and keys: "distinct (map wallet_key (wallets s))"
    by (simp_all add: unique_records_def)
  from f have w: "w \<in> set (wallets s)" and kw: "wallet_key w = (ch, toLowerCase n)"
    by (auto dest: findOne_SomeD simp: wallet_key_def)
  have m: "uid \<in> set (trackingUserIds w)"
  proof (rule ccontr)
    assume "uid \<notin> set (trackingUserIds w)"
    with f have "untrack_store http uid ch n s = (s, NotTracking, [])"
      by (intro untrack_store_absent) simp
    with t show False by simp
  qed
  show ?thesis
  proof (cases "filter (\<lambda>i. i \<noteq> uid) (trackingUserIds w) = []")
    case True
    from t have "wallets s' = deleteOne (wallet_id w) (wallets s)"
      and "calls = map (\<lambda>i. DeleteStream i (ch = ''SOL'')) (stream_ids w)"
      unfolding untrack_store_last [OF f m True] by auto
    with True m show ?thesis
      by (simp add: subset_singleton_filter deleteOne_unique [OF ids w, symmetric]
          findOne_deleteOne [OF ids keys w] kw)
  next
    case False
    let ?w' = "w\<lparr>trackingUserIds := filter (\<lambda>i. i \<noteq> uid) (trackingUserIds w)\<rparr>"
    have i: "wallet_id ?w' = wallet_id w" and k: "wallet_key ?w' = wallet_key w"
      by (simp_all add: wallet_key_def)
    from t have "wallets s' = save ?w' (wallets s)" and "calls = []"
      unfolding untrack_store_other [OF f m False] by auto
    with False m show ?thesis
      by (simp add: subset_singleton_filter save_unique [OF ids w i, symmetric]
          findOne_save [OF ids keys w i k] kw)
  qed
qed

lemma track_accepted:
  assumes "track P cfg http ctx s = (s', r, calls)" and "r \<noteq> RateLimited"
    and "track_args P cfg (text_of ctx) = Inr (ch, n, al)"
  obtains s0 where "wallets s0 = wallets s" "next_id s0 = next_id s" "users s0 = users s"
    "track_store cfg http (from_id ctx) (from_username ctx) ch n al s0 = (s', r, calls)"
  using assms(1)
proof (cases rule: track_cases)
  case limited
  with assms(2) show ?thesis by simp
next
  case refused
  with assms(3) show ?thesis by simp
next
  case (stored ch' n' al' s0)
  with assms(3) show ?thesis by (intro that [of s0]) simp_all
qed

lemma filter_key_le1:
  "distinct (map f xs) \<Longrightarrow> length (filter (\<lambda>x. f x = k) xs) \<le> 1"
proof (induction xs)
  case Nil
  then show ?case by simp
next
  case (Cons x xs)
  show ?case
  proof (cases "f x = k")
    case True
    with Cons.prems have "k \<notin> f ` set xs" by auto
    then have "\<forall>y \<in> set xs. f y \<noteq> k" by blast
    then have "filter (\<lambda>x. f x = k) xs = []" by (simp add: filter_empty_conv)
    with True show ?thesis by simp
  next
    case False
    with Cons show ?thesis by simp
  qed
qed

lemma records_for_le1:
  assumes "unique_records s"
  shows "length (records_for s c a) \<le> 1"
proof -
  have "records_for s c a = filter (\<lambda>w. wallet_key w = (c, a)) (wallets s)"
    by (simp add: records_for_def wallet_key_def)
  moreover from assms have "distinct (map wallet_key (wallets s))"
    by (simp add: unique_records_def)
  ultimately show ?thesis
    using filter_key_le1 [of wallet_key "wallets s" "(c, a)"] by simp
qed

lemma records_for_found:
  assumes "unique_records s" and "findOne (wallets s) a c = Some w"
  shows "records_for s c a = [w]"
proof -
  from assms(2) have "w \<in> set (records_for s c a)"
    by (auto simp: records_for_def dest: findOne_SomeD)
  with records_for_le1 [OF assms(1), of c a] show ?thesis
    by (cases "records_for s c a") auto
qed

lemma track_store_unique:
  assumes u: "unique_records s"
    and t: "track_store cfg http uid uname ch n al s = (s', r, calls)"
  shows "unique_records s'"
proof (cases "findOne (wallets s) (toLowerCase n) ch")
  case (Some w)
  from u have ids: "distinct (map wallet_id (wallets s))" by (simp add: unique_records_def)
  from Some have w: "w \<in> set (wallets s)" by (auto dest: findOne_SomeD)
  show ?thesis
  proof (cases "uid \<in> set (trackingUserIds w)")
    case True
    from t [unfolded track_store_already [OF Some True]] u show ?thesis
      by (auto simp: unique_records_def)
  next
    case False
    let ?w' = "w\<lparr>trackingUserIds := trackingUserIds w @ [uid]\<rparr>"
    have i: "wallet_id ?w' = wallet_id w" and k: "wallet_key ?w' = wallet_key w"
      by (simp_all add: wallet_key_def)
    from t [unfolded track_store_add [OF Some False]]
    have s': "wallets s' = save ?w' (wallets s)" "next_id s' = next_id s" by auto
    from u w show ?thesis
      by (auto simp: unique_records_def s' map_id_save map_key_save [OF ids w i k]
          set_save [OF ids w i])
  qed
next
  case None
  let ?url = "webhookPublicUrl cfg @ webhookPath cfg"
  show ?thesis
  proof (cases "falsy (snd (createStream http n ch ?url))")
    case True
    from t [unfolded track_store_failed [OF None True]] u show ?thesis
      by (auto simp: unique_records_def)
  next
    case False
    from t [unfolded track_store_new [OF None False]]
    have s': "wallets s' = wallets s @
                [\<lparr>wallet_id = next_id s, address = toLowerCase n, chainTicker = ch,
                  wallet_alias = al, trackingUserIds = [uid],
                  moralisStreamId = id_of (snd (createStream http n ch ?url))\<rparr>]"
      "next_id s' = Suc (next_id s)" by auto
    from None have "(ch, toLowerCase n) \<notin> wallet_key ` set (wallets s)"
      by (auto simp: findOne_None_iff wallet_key_def)
    with u show ?thesis
      by (auto simp: unique_records_def s' wallet_key_def less_Suc_eq)
  qed
qed

lemma track_store_subscribed:
  assumes u: "unique_records s"
    and t: "track_store cfg http uid uname ch n al s = (s', r, calls)"
    and r: "r \<noteq> StreamFailed"
  shows "\<exists>w'. findOne (wallets s') (toLowerCase n) ch = Some w' \<and> uid \<in> set (trackingUserIds w') \<and>
              (\<forall>w. findOne (wallets s) (toLowerCase n) ch = Some w \<longrightarrow>
                   set (trackingUserIds w) \<subseteq> set (trackingUserIds w'))"
proof (cases "findOne (wallets s) (toLowerCase n) ch")
  case (Some w)
  from u have ids: "distinct (map wallet_id (wallets s))"
    and keys: "distinct (map wallet_key (wallets s))" by (simp_all add: unique_records_def)
  from Some have w: "w \<in> set (wallets s)" and kw: "wallet_key w = (ch, toLowerCase n)"
    by (auto dest: findOne_SomeD simp: wallet_key_def)
  show ?thesis
  proof (cases "uid \<in> set (trackingUserIds w)")
    case True
    from t [unfolded track_store_already [OF Some True]] Some True show ?thesis
      by auto
  next
    case False
    let ?w' = "w\<lparr>trackingUserIds := trackingUserIds w @ [uid]\<rparr>"
    have i: "wallet_id ?w' = wallet_id w" and k: "wallet_key ?w' = wallet_key w"
      by (simp_all add: wallet_key_def)
    from t [unfolded track_store_add [OF Some False]]
    have s': "wallets s' = save ?w' (wallets s)" by auto
    have "findOne (wallets s') (toLowerCase n) ch = Some ?w'"
      by (simp add: s' findOne_save [OF ids keys w i k] kw)
    with Some show ?thesis by auto
  qed
next
  case None
  let ?url = "webhookPublicUrl cfg @ webhookPath cfg"
  show ?thesis
  proof (cases "falsy (snd (createStream http n ch ?url))")
    case True
    from t [unfolded track_store_failed [OF None True]] r show ?thesis
      by simp
  next
    case False
    from t [unfolded track_store_new [OF None False]]
    have s': "wallets s' = wallets s @
                [\<lparr>wallet_id = next_id s, address = toLowerCase n, chainTicker = ch,
                  wallet_alias = al, trackingUserIds = [uid],
                  moralisStreamId = id_of (snd (createStream http n ch ?url))\<rparr>]"
      by auto
    from None show ?thesis
      by (simp add: s' findOne_append)
  qed
qed

lemma track_let_through:
  assumes "let_through cfg ctx s" and "track_args P cfg (text_of ctx) = Inr (ch, n, al)"
  shows "track P cfg http ctx s =
           track_store cfg http (from_id ctx) (from_username ctx) ch n al
             (s\<lparr>userCommandCounts :=
                  snd (checkRateLimit cfg (now ctx) (from_id ctx) (userCommandCounts s))\<rparr>)"
  using assms by (simp add: track_def let_through_def split_beta Let_def)

lemma untrack_let_through:
  assumes "let_through cfg ctx s" and "untrack_args P (text_of ctx) = Inr (ch, n)"
  shows "untrack P cfg http ctx s =
           untrack_store http (from_id ctx) ch n
             (s\<lparr>userCommandCounts :=
                  snd (checkRateLimit cfg (now ctx) (from_id ctx) (userCommandCounts s))\<rparr>)"
  using assms by (simp add: untrack_def let_through_def split_beta Let_def)

lemma untrack_not_limited:
  assumes "untrack P cfg http ctx s = (s', r, calls)" and "r \<noteq> RateLimited"
  shows "let_through cfg ctx s"
  using assms(1)
proof (cases rule: untrack_cases)
  case limited
  with assms(2) show ?thesis by simp
qed

lemma untrack_store_reply:
  assumes "findOne (wallets s) (toLowerCase n) ch = Some w" and "uid \<in> set (trackingUserIds w)"
  shows "fst (snd (untrack_store http uid ch n s)) = StoppedTracking ch n"
  using assms by (simp add: untrack_store_def Let_def)

lemma first_track_creates:
  assumes c: "consistent s G"
    and l: "let_through cfg ctx s"
    and a: "track_args P cfg (text_of ctx) = Inr (ch, n, al)"
    and e: "subscribers G (ch, toLowerCase n) = {}"
    and p: "provisioned http"
  shows "\<exists>w. findOne (wallets (fst (track P cfg http ctx s))) (toLowerCase n) ch = Some w \<and>
             trackingUserIds w = [from_id ctx]"
proof -
  let ?url = "webhookPublicUrl cfg @ webhookPath cfg"
  let ?s0 = "s\<lparr>userCommandCounts :=
                  snd (checkRateLimit cfg (now ctx) (from_id ctx) (userCommandCounts s))\<rparr>"
  have fs: "findOne (wallets s) (toLowerCase n) ch = None"
  proof (cases "findOne (wallets s) (toLowerCase n) ch")
    case None
    then show ?thesis by simp
  next
    case (Some w)
    from consistent_subscribers(2) [OF c Some] e show ?thesis by simp
  qed
  then have f: "findOne (wallets ?s0) (toLowerCase n) ch = None"
    by simp
  from createStream_known(2) [OF track_args_chain [OF a], of http n ?url] p
  have nf: "\<not> falsy (snd (createStream http n ch ?url))"
    by simp
  have "wallets (fst (track P cfg http ctx s)) =
          wallets s @
            [\<lparr>wallet_id = next_id s, address = toLowerCase n, chainTicker = ch,
              wallet_alias = al, trackingUserIds = [from_id ctx],
              moralisStreamId = id_of (snd (createStream http n ch ?url))\<rparr>]"
    by (simp add: track_let_through [OF l a] track_store_new [OF f nf])
  then show ?thesis
    by (simp add: findOne_append fs)
qed

lemma last_untrack_deletes:
  assumes c: "consistent s G"
    and l: "let_through cfg ctx s"
    and a: "untrack_args P (text_of ctx) = Inr (ch, n)"
    and e: "subscribers G (ch, toLowerCase n) = {from_id ctx}"
  shows "\<exists>w. findOne (wallets s) (toLowerCase n) ch = Some w \<and>
             findOne (wallets (fst (untrack P cfg http ctx s))) (toLowerCase n) ch = None \<and>
             snd (snd (untrack P cfg http ctx s)) =
               map (\<lambda>i. DeleteStream i (ch = ''SOL'')) (stream_ids w)"
proof -
  let ?s0 = "s\<lparr>userCommandCounts :=
                  snd (checkRateLimit cfg (now ctx) (from_id ctx) (userCommandCounts s))\<rparr>"
  from consistent_subscribers(1) [OF c, of ch "toLowerCase n"] e
  obtain w where f: "findOne (wallets s) (toLowerCase n) ch = Some w"
    and tids: "set (trackingUserIds w) = {from_id ctx}"
    by (cases "findOne (wallets s) (toLowerCase n) ch") auto
  from f have f0: "findOne (wallets ?s0) (toLowerCase n) ch = Some w"
    by simp
  from tids have m: "from_id ctx \<in> set (trackingUserIds w)"
    and r: "filter (\<lambda>i. i \<noteq> from_id ctx) (trackingUserIds w) = []"
    by (auto simp: filter_empty_conv)
  from c have ids: "distinct (map wallet_id (wallets s))"
    and keys: "distinct (map wallet_key (wallets s))"
    by (simp_all add: consistent_def unique_records_def)
  from f have w: "w \<in> set (wallets s)" and kw: "wallet_key w = (ch, toLowerCase n)"
    by (auto dest: findOne_SomeD simp: wallet_key_def)
  have "untrack P cfg http ctx s =
          (?s0\<lparr>wallets := deleteOne (wallet_id w) (wallets ?s0),
               users := update_user (from_id ctx) (pull (wallet_id w)) (users ?s0)\<rparr>,
           StoppedTracking ch n, map (\<lambda>i. DeleteStream i (ch = ''SOL'')) (stream_ids w))"
    by (simp only: untrack_let_through [OF l a] untrack_store_last [OF f0 m r])
  with f show ?thesis
    by (simp add: findOne_deleteOne [OF ids keys w] kw)
qed

subsection \<open>The claims about the subscription store\<close>

lemmas handler_eval =
  track_def untrack_def track_args_def untrack_args_def track_store_def untrack_store_def
  checkRateLimit_def split_ws.simps is_space_def toUpperCase_def toUpperCase_char_def
  toLowerCase_def toLowerCase_char_def validateAlias_def alias_chars_def validateAddress_def
  validateEvmAddress_def createStream_def falsy_def id_of_def deleteStream_def CHAIN_CONFIG_def
  findOne_def save_def addToSet_def pull_def default_config_def example_platform_def
  initial_state_def alice_track_def bob_track_def alice_untrack_def bob_untrack_def
  vault_record_def vault_state_def vault_address_def unique_records_def wallet_key_def Let_def

lemmas run_eval =
  example_run_def example_trace_def step_def observe_def initial_observer_def requested_def
  request_of_def let_through_def subscribe_def unsubscribe_def provisioned_def

lemmas sol_eval =
  validateSolanaAddress_def base58_alphabet_def token_program_def token_program_t_def
  alice_track_sol_def bob_track_sol_def alice_untrack_sol_def token_record_def

text \<open>The example stores, evaluated.\<close>

lemma sol_state_1_eval:
  "sol_state_1 =
     \<lparr>users = [\<lparr>telegramId = 1001, username = Some ''alice'', trackedWalletIds = [0]\<rparr>],
      wallets = [token_record [1001]], next_id = 1, userCommandCounts = [1001 \<mapsto> [1000]]\<rparr>"
  by (simp add: sol_state_1_def handler_eval sol_eval)

lemma sol_state_2_eval:
  "sol_state_2 =
     \<lparr>users = [\<lparr>telegramId = 1001, username = Some ''alice'', trackedWalletIds = [0]\<rparr>,
               \<lparr>telegramId = 1002, username = None, trackedWalletIds = [0]\<rparr>],
      wallets = [token_record [1001, 1002]], next_id = 1,
      userCommandCounts = [1001 \<mapsto> [1000], 1002 \<mapsto> [2000]]\<rparr>"
  by (simp add: sol_state_2_def sol_state_1_eval handler_eval sol_eval)

lemma no_id_state_eval:
  "no_id_state =
     \<lparr>users = [\<lparr>telegramId = 1001, username = Some ''alice'', trackedWalletIds = [0]\<rparr>],
      wallets = [\<lparr>wallet_id = 0, address = ''0x5aaeb6053f3e94c9b9a09f33669435e7ef1beaed'',
                  chainTicker = ''ETH'', wallet_alias = Some ''Vault'', trackingUserIds = [1001],
                  moralisStreamId = None\<rparr>],
      next_id = 1, userCommandCounts = [1001 \<mapsto> [1000]]\<rparr>"
  by (simp add: no_id_state_def handler_eval)

text \<open>
  C1, as the code has it: after every sequence of \<^verbatim>\<open>/track\<close> and \<^verbatim>\<open>/untrack\<close> commands run
  one after the other from the empty store, whatever the provider answered: no record has
  an empty subscriber list; a record exists under a (chain, lower-cased normalized address)
  key exactly when the subscriber set of that key is not empty, and the list of the record
  is that set. The sets follow the commands, not what the handlers answer: a \<^verbatim>\<open>/track\<close> that
  passes the rate limiter and the validation adds the user, unless the set is empty and the
  stream request fails; an \<^verbatim>\<open>/untrack\<close> that passes them removes the user. The streams opened
  at the provider and not yet asked to be deleted are the stream ids the records hold. And
  from every state so reached, the \<^verbatim>\<open>/track\<close> of a first subscriber whose stream request
  succeeds creates the record, and the \<^verbatim>\<open>/untrack\<close> that empties the set deletes the record
  and issues the delete call for its stored stream id, none when it stores no id.
\<close>

theorem record_exists_iff_commands_subscribed:
  assumes "run_observed P cfg evs (initial_state, initial_observer) = (s, G)"
  shows "(\<forall>w \<in> set (wallets s). trackingUserIds w \<noteq> []) \<and>
         (\<forall>c a. (findOne (wallets s) a c \<noteq> None) = (subscribers G (c, a) \<noteq> {})) \<and>
         (\<forall>c a w. findOne (wallets s) a c = Some w \<longrightarrow>
                    set (trackingUserIds w) = subscribers G (c, a)) \<and>
         open_streams G = stored_streams (wallets s) \<and>
         (\<forall>ctx http c n al.
            let_through cfg ctx s \<and> track_args P cfg (text_of ctx) = Inr (c, n, al) \<and>
            subscribers G (c, toLowerCase n) = {} \<and> provisioned http \<longrightarrow>
            (\<exists>w. findOne (wallets (fst (track P cfg http ctx s))) (toLowerCase n) c = Some w \<and>
                 trackingUserIds w = [from_id ctx])) \<and>
         (\<forall>ctx http c n.
            let_through cfg ctx s \<and> untrack_args P (text_of ctx) = Inr (c, n) \<and>
            subscribers G (c, toLowerCase n) = {from_id ctx} \<longrightarrow>
            (\<exists>w. findOne (wallets s) (toLowerCase n) c = Some w \<and>
                 findOne (wallets (fst (untrack P cfg http ctx s))) (toLowerCase n) c = None \<and>
                 snd (snd (untrack P cfg http ctx s)) =
                   map (\<lambda>i. DeleteStream i (c = ''SOL'')) (stream_ids w)))"
proof -
  from run_observed_consistent [OF consistent_initial assms]
  have c: "consistent s G" .
  then have ne: "\<forall>w \<in> set (wallets s). trackingUserIds w \<noteq> []"
    and subs: "\<And>c a. subscribers G (c, a) =
                 (case findOne (wallets s) a c of None \<Rightarrow> {} | Some w \<Rightarrow> set (trackingUserIds w))"
    and str: "open_streams G = stored_streams (wallets s)"
    by (auto simp: consistent_def)
  have "(findOne (wallets s) a c \<noteq> None) = (subscribers G (c, a) \<noteq> {})" for c a
    using ne by (auto simp: subs dest!: findOne_SomeD split: option.splits)
  moreover have "set (trackingUserIds w) = subscribers G (c, a)"
    if "findOne (wallets s) a c = Some w" for c a w
    using that by (simp add: subs)
  moreover have "\<exists>w. findOne (wallets (fst (track P cfg http ctx s))) (toLowerCase n) c = Some w \<and>
                     trackingUserIds w = [from_id ctx]"
    if "let_through cfg ctx s \<and> track_args P cfg (text_of ctx) = Inr (c, n, al) \<and>
        subscribers G (c, toLowerCase n) = {} \<and> provisioned http" for ctx http c n al
    using that first_track_creates [OF c, of cfg ctx P c n al http] by blast
  moreover have "\<exists>w. findOne (wallets s) (toLowerCase n) c = Some w \<and>
                     findOne (wallets (fst (untrack P cfg http ctx s))) (toLowerCase n) c = None \<and>
                     snd (snd (untrack P cfg http ctx s)) =
                       map (\<lambda>i. DeleteStream i (c = ''SOL'')) (stream_ids w)"
    if "let_through cfg ctx s \<and> untrack_args P (text_of ctx) = Inr (c, n) \<and>
        subscribers G (c, toLowerCase n) = {from_id ctx}" for ctx http c n
    using that last_untrack_deletes [OF c, of cfg ctx P c n http] by blast
  ultimately show ?thesis
    using ne str by blast
qed

text \<open>The theorem on the example run: Alice's first subscription creates the record, Bob
  joins it although his stream request would not be answered, and after Alice has left the
  record lists Bob alone; Bob's \<^verbatim>\<open>/untrack\<close> then deletes the record and asks for the stream
  to be deleted. And on the empty store: Alice's \<^verbatim>\<open>/track\<close>, answered with status 201,
  creates the record.\<close>

theorem record_exists_iff_commands_subscribed_witness:
  "run_observed example_platform default_config example_trace (initial_state, initial_observer) =
     (fst example_run, snd example_run)
   \<and> wallets (fst example_run) = [vault_record [1002]]
   \<and> findOne (wallets (fst example_run)) (toLowerCase vault_address) ''ETH'' =
       Some (vault_record [1002])
   \<and> subscribers (snd example_run) (''ETH'', toLowerCase vault_address) = {1002}
   \<and> open_streams (snd example_run) = {#''stream-1''#}
   \<and> let_through default_config bob_untrack (fst example_run)
   \<and> untrack_args example_platform (text_of bob_untrack) = Inr (''ETH'', vault_address)
   \<and> from_id bob_untrack = 1002
   \<and> findOne (wallets (fst (untrack example_platform default_config NoResponse bob_untrack
                               (fst example_run))))
         (toLowerCase vault_address) ''ETH'' = None
   \<and> snd (snd (untrack example_platform default_config NoResponse bob_untrack
                   (fst example_run))) = [DeleteStream ''stream-1'' False]
   \<and> run_observed example_platform default_config [] (initial_state, initial_observer) =
       (initial_state, initial_observer)
   \<and> let_through default_config alice_track initial_state
   \<and> track_args example_platform default_config (text_of alice_track) =
       Inr (''ETH'', vault_address, Some ''Vault'')
   \<and> subscribers initial_observer (''ETH'', toLowerCase vault_address) = {}
   \<and> provisioned (Response 201 (StreamData (Some ''stream-1'')))
   \<and> findOne (wallets (fst (track example_platform default_config
                               (Response 201 (StreamData (Some ''stream-1''))) alice_track
                               initial_state)))
         (toLowerCase vault_address) ''ETH'' = Some (vault_record [1001])"
proof -
  let ?U = "untrack example_platform default_config NoResponse bob_untrack (fst example_run)"
  let ?T = "track example_platform default_config (Response 201 (StreamData (Some ''stream-1'')))
              alice_track initial_state"
  have h: "run_observed example_platform default_config example_trace
             (initial_state, initial_observer) = (fst example_run, snd example_run)"
    by (simp add: example_run_def)
  have ws: "wallets (fst example_run) = [vault_record [1002]]"
    by (simp add: run_eval handler_eval)
  then have f: "findOne (wallets (fst example_run)) (toLowerCase vault_address) ''ETH'' =
                  Some (vault_record [1002])"
    by (simp add: handler_eval)
  note th = record_exists_iff_commands_subscribed [OF h]
  note th_list = th [THEN conjunct2, THEN conjunct2, THEN conjunct1, rule_format]
  note th_streams = th [THEN conjunct2, THEN conjunct2, THEN conjunct2, THEN conjunct1]
  note th_untrack = th [THEN conjunct2, THEN conjunct2, THEN conjunct2, THEN conjunct2,
      THEN conjunct2, rule_format]
  from th_list [OF f]
  have sb: "subscribers (snd example_run) (''ETH'', toLowerCase vault_address) =
              set (trackingUserIds (vault_record [1002]))"
    by (rule sym)
  note os = th_streams
  have l: "let_through default_config bob_untrack (fst example_run)"
    by (simp add: run_eval handler_eval)
  have a: "untrack_args example_platform (text_of bob_untrack) = Inr (''ETH'', vault_address)"
    by (simp add: handler_eval)
  have u: "from_id bob_untrack = 1002"
    by (simp add: bob_untrack_def)
  from sb u have e: "subscribers (snd example_run) (''ETH'', toLowerCase vault_address) =
                       {from_id bob_untrack}"
    by (simp add: vault_record_def)
  from th_untrack [OF conjI [OF l conjI [OF a e]], of NoResponse]
  obtain w where w: "findOne (wallets (fst example_run)) (toLowerCase vault_address) ''ETH'' = Some w"
    and d: "findOne (wallets (fst ?U)) (toLowerCase vault_address) ''ETH'' = None"
    and k: "snd (snd ?U) = map (\<lambda>i. DeleteStream i (''ETH'' = ''SOL'')) (stream_ids w)"
    by (elim exE conjE)
  from w f have "w = vault_record [1002]" by simp
  with k have k': "snd (snd ?U) = [DeleteStream ''stream-1'' False]"
    by (simp add: stream_ids_def vault_record_def)
  have h0: "run_observed example_platform default_config [] (initial_state, initial_observer) =
              (initial_state, initial_observer)"
    by simp
  note th_track = record_exists_iff_commands_subscribed [OF h0, THEN conjunct2, THEN conjunct2,
      THEN conjunct2, THEN conjunct2, THEN conjunct1, rule_format]
  have l0: "let_through default_config alice_track initial_state"
    by (simp add: run_eval handler_eval)
  have a0: "track_args example_platform default_config (text_of alice_track) =
              Inr (''ETH'', vault_address, Some ''Vault'')"
    by (simp add: handler_eval)
  have e0: "subscribers initial_observer (''ETH'', toLowerCase vault_address) = {}"
    by (simp add: initial_observer_def)
  have p0: "provisioned (Response 201 (StreamData (Some ''stream-1'')))"
    by (simp add: provisioned_def)
  from th_track [OF conjI [OF l0 conjI [OF a0 conjI [OF e0 p0]]]]
  obtain w0 where "findOne (wallets (fst ?T)) (toLowerCase vault_address) ''ETH'' = Some w0"
    by (elim exE conjE)
  moreover have "wallets (fst ?T) = [vault_record [1001]]"
    by (simp add: handler_eval)
  ultimately have t0: "findOne (wallets (fst ?T)) (toLowerCase vault_address) ''ETH'' =
                         Some (vault_record [1001])"
    by (simp add: findOne_def split: if_splits)
  from h ws f sb os l a u d k' h0 l0 a0 e0 p0 t0 show ?thesis
    by (simp add: vault_record_def stored_streams_def stream_ids_def)
qed

text \<open>
  C1 as stated fails. Pairs of a chain ticker and a canonical address are not what the
  store keeps apart: two base58 strings that differ in letter case are both valid and each
  its own canonical form, yet Bob's \<^verbatim>\<open>/track\<close> of the second joins the record that Alice's
  \<^verbatim>\<open>/track\<close> of the first created, under an address that is neither, and no stream is asked
  for; when Alice, the only subscriber of the first, untracks it, the record and its stream
  stay. A first subscriber's \<^verbatim>\<open>/track\<close> that the provider does not answer creates no record.
  And the \<^verbatim>\<open>/untrack\<close> that empties the set of a record without stream id deletes the record
  and asks for no stream to be deleted.
\<close>

theorem canonical_pair_record_counterexample:
  "validateAddress example_platform token_program ''SOL'' = Inr token_program
   \<and> validateAddress example_platform token_program_t ''SOL'' = Inr token_program_t
   \<and> token_program \<noteq> token_program_t
   \<and> wallets sol_state_1 = [token_record [1001]]
   \<and> snd (track example_platform default_config (Response 200 (StreamData (Some ''stream-8'')))
            bob_track_sol sol_state_1) = (NowTracking ''SOL'' token_program_t, [])
   \<and> wallets sol_state_2 = [token_record [1001, 1002]]
   \<and> snd (untrack example_platform default_config (Response 200 EmptyBody) alice_untrack_sol
            sol_state_2) = (StoppedTracking ''SOL'' token_program, [])
   \<and> wallets (fst (untrack example_platform default_config (Response 200 EmptyBody)
                      alice_untrack_sol sol_state_2)) = [token_record [1002]]
   \<and> address (token_record [1002]) \<noteq> token_program
   \<and> address (token_record [1002]) \<noteq> token_program_t
   \<and> snd (track example_platform default_config NoResponse alice_track initial_state) =
       (StreamFailed, [CreateStream vault_address ''ETH'' ''https://bot.example/webhook/moralis''])
   \<and> wallets (fst (track example_platform default_config NoResponse alice_track
                      initial_state)) = []
   \<and> map trackingUserIds (wallets no_id_state) = [[1001]]
   \<and> map moralisStreamId (wallets no_id_state) = [None]
   \<and> snd (untrack example_platform default_config NoResponse alice_untrack no_id_state) =
       (StoppedTracking ''ETH'' vault_address, [])
   \<and> wallets (fst (untrack example_platform default_config NoResponse alice_untrack
                      no_id_state)) = []"
  by (simp add: sol_state_1_eval sol_state_2_eval no_id_state_eval handler_eval sol_eval)

text \<open>
  C4, as the code has it: when an \<^verbatim>\<open>/untrack\<close> that passes the rate limiter and the
  validation names a wallet whose record lists the user, the handler answers that
  tracking stopped. If no other subscriber is left, the record is removed from the
  collection (and no record answers the key any more) and one delete call is issued for
  the stored stream id if the record stores one, none if it stores \<^verbatim>\<open>null\<close> or the empty
  string; if another subscriber is left, the record stays, with this user filtered out of
  its list, and no call is issued.
\<close>

theorem untrack_release_calls:
  assumes "unique_records s"
    and "untrack P cfg http ctx s = (s', r, calls)" and "r \<noteq> RateLimited"
    and "untrack_args P (text_of ctx) = Inr (ch, n)"
    and "findOne (wallets s) (toLowerCase n) ch = Some w"
    and "from_id ctx \<in> set (trackingUserIds w)"
  shows "r = StoppedTracking ch n \<and>
         (if set (trackingUserIds w) \<subseteq> {from_id ctx}
          then wallets s' = filter (\<lambda>x. x \<noteq> w) (wallets s) \<and>
               findOne (wallets s') (toLowerCase n) ch = None \<and>
               calls = (case moralisStreamId w of
                          None \<Rightarrow> []
                        | Some sid \<Rightarrow> if sid = [] then [] else [DeleteStream sid (ch = ''SOL'')])
          else wallets s' =
                 map (\<lambda>x. if x = w
                          then w\<lparr>trackingUserIds :=
                                   filter (\<lambda>i. i \<noteq> from_id ctx) (trackingUserIds w)\<rparr>
                          else x) (wallets s) \<and>
               findOne (wallets s') (toLowerCase n) ch =
                 Some (w\<lparr>trackingUserIds :=
                          filter (\<lambda>i. i \<noteq> from_id ctx) (trackingUserIds w)\<rparr>) \<and>
               calls = [])"
proof -
  let ?s0 = "s\<lparr>userCommandCounts :=
                  snd (checkRateLimit cfg (now ctx) (from_id ctx) (userCommandCounts s))\<rparr>"
  from assms(2,3) have l: "let_through cfg ctx s"
    by (rule untrack_not_limited)
  from assms(2) have t: "untrack_store http (from_id ctx) ch n ?s0 = (s', r, calls)"
    unfolding untrack_let_through [OF l assms(4)] .
  from assms(1) have u: "unique_records ?s0"
    by (simp add: unique_records_def)
  from assms(5) have f: "findOne (wallets ?s0) (toLowerCase n) ch = Some w"
    by simp
  from untrack_store_reply [OF f assms(6), of http] t have r: "r = StoppedTracking ch n"
    by simp
  have "map (\<lambda>i. DeleteStream i (ch = ''SOL'')) (stream_ids w) =
          (case moralisStreamId w of
             None \<Rightarrow> []
           | Some sid \<Rightarrow> if sid = [] then [] else [DeleteStream sid (ch = ''SOL'')])"
    by (simp add: stream_ids_def split: option.splits)
  with untrack_store_effect [OF u f t [unfolded r]] r show ?thesis
    by (auto split: if_splits)
qed

text \<open>The theorem when Alice is the only subscriber, and when Bob remains.\<close>

theorem untrack_release_calls_witness:
  "unique_records (vault_state [1001]) \<and> unique_records (vault_state [1001, 1002])
   \<and> untrack_args example_platform (text_of alice_untrack) = Inr (''ETH'', vault_address)
   \<and> findOne (wallets (vault_state [1001])) (toLowerCase vault_address) ''ETH'' =
       Some (vault_record [1001])
   \<and> findOne (wallets (vault_state [1001, 1002])) (toLowerCase vault_address) ''ETH'' =
       Some (vault_record [1001, 1002])
   \<and> from_id alice_untrack \<in> set (trackingUserIds (vault_record [1001]))
   \<and> from_id alice_untrack \<in> set (trackingUserIds (vault_record [1001, 1002]))
   \<and> moralisStreamId (vault_record [1001]) = Some ''stream-1''
   \<and> untrack example_platform default_config NoResponse alice_untrack (vault_state [1001]) =
       (\<lparr>users = [], wallets = [], next_id = 1, userCommandCounts = [1001 \<mapsto> [3000]]\<rparr>,
        StoppedTracking ''ETH'' vault_address, [DeleteStream ''stream-1'' False])
   \<and> untrack example_platform default_config NoResponse alice_untrack (vault_state [1001, 1002]) =
       (\<lparr>users = [], wallets = [vault_record [1002]], next_id = 1,
          userCommandCounts = [1001 \<mapsto> [3000]]\<rparr>,
        StoppedTracking ''ETH'' vault_address, [])"
proof -
  let ?U = "\<lambda>ids. untrack example_platform default_config NoResponse alice_untrack (vault_state ids)"
  have u: "unique_records (vault_state ids)" for ids
    by (simp add: handler_eval)
  have a: "untrack_args example_platform (text_of alice_untrack) = Inr (''ETH'', vault_address)"
    by (simp add: handler_eval)
  have f: "findOne (wallets (vault_state ids)) (toLowerCase vault_address) ''ETH'' =
             Some (vault_record ids)" for ids
    by (simp add: handler_eval)
  have m: "from_id alice_untrack \<in> set (trackingUserIds (vault_record [1001]))"
    "from_id alice_untrack \<in> set (trackingUserIds (vault_record [1001, 1002]))"
    by (simp_all add: vault_record_def alice_untrack_def)
  have i: "moralisStreamId (vault_record ids) = Some ''stream-1''" for ids
    by (simp add: vault_record_def)
  have t: "?U ids = (fst (?U ids), fst (snd (?U ids)), snd (snd (?U ids)))" for ids
    by simp
  have r: "fst (snd (?U ids)) \<noteq> RateLimited" for ids
    by (simp add: handler_eval)
  have sa: "fst (?U [1001]) =
             \<lparr>users = [], wallets = [], next_id = 1, userCommandCounts = [1001 \<mapsto> [3000]]\<rparr>"
    and sb: "fst (?U [1001, 1002]) =
              \<lparr>users = [], wallets = [vault_record [1002]], next_id = 1,
                userCommandCounts = [1001 \<mapsto> [3000]]\<rparr>"
    by (simp_all add: handler_eval)
  from untrack_release_calls [OF u t r a f m(1)]
  have "fst (snd (?U [1001])) = StoppedTracking ''ETH'' vault_address"
    and "snd (snd (?U [1001])) = [DeleteStream ''stream-1'' False]"
    by (simp_all add: alice_untrack_def vault_record_def)
  moreover from untrack_release_calls [OF u t r a f m(2)]
  have "fst (snd (?U [1001, 1002])) = StoppedTracking ''ETH'' vault_address"
    and "snd (snd (?U [1001, 1002])) = []"
    by (simp_all add: alice_untrack_def vault_record_def)
  ultimately show ?thesis
    using u a f m i sa sb t [of "[1001]"] t [of "[1001, 1002]"] by simp
qed

text \<open>
  C4 as stated fails for a record without stream id, which a \<^verbatim>\<open>/track\<close> leaves when the
  provider answers its request with status 200 and a body without \<^verbatim>\<open>id\<close>: Alice is the
  only subscriber of that record, her \<^verbatim>\<open>/untrack\<close> deletes it, and no delete call is issued,
  not one.
\<close>

theorem untrack_without_stream_id_counterexample:
  "snd (track example_platform default_config (Response 200 (StreamData None)) alice_track
          initial_state) =
     (TrackingStarted ''ETH'' vault_address,
      [CreateStream vault_address ''ETH'' ''https://bot.example/webhook/moralis''])
   \<and> wallets no_id_state =
       [\<lparr>wallet_id = 0, address = ''0x5aaeb6053f3e94c9b9a09f33669435e7ef1beaed'',
         chainTicker = ''ETH'', wallet_alias = Some ''Vault'', trackingUserIds = [1001],
         moralisStreamId = None\<rparr>]
   \<and> from_id alice_untrack = 1001
   \<and> fst (snd (untrack example_platform default_config NoResponse alice_untrack no_id_state)) =
       StoppedTracking ''ETH'' vault_address
   \<and> wallets (fst (untrack example_platform default_config NoResponse alice_untrack
                      no_id_state)) = []
   \<and> snd (snd (untrack example_platform default_config NoResponse alice_untrack no_id_state)) =
       []"
  by (simp add: no_id_state_eval handler_eval)

text \<open>
  C9: when \<^verbatim>\<open>/untrack\<close> by the last subscriber stops the tracking, then whatever the
  provider answers to the delete request (any other outcome \<open>http'\<close> in place of \<open>http\<close>)
  the handler ends in the same state with the same reply, the record is gone, and no
  record under that key lists the user.
\<close>

theorem untrack_removal_whatever_release:
  assumes "unique_records s"
    and "untrack P cfg http ctx s = (s', StoppedTracking ch n, calls)"
    and "findOne (wallets s) (toLowerCase n) ch = Some w"
    and "set (trackingUserIds w) \<subseteq> {from_id ctx}"
  shows "untrack P cfg http' ctx s = (s', StoppedTracking ch n, calls) \<and>
         wallets s' = filter (\<lambda>x. x \<noteq> w) (wallets s) \<and>
         findOne (wallets s') (toLowerCase n) ch = None \<and>
         (\<forall>x \<in> set (wallets s').
            chainTicker x = ch \<and> address x = toLowerCase n \<longrightarrow>
            from_id ctx \<notin> set (trackingUserIds x))"
proof -
  let ?uid = "from_id ctx"
  from assms(2) obtain s0 where s0: "wallets s0 = wallets s" "next_id s0 = next_id s"
    and a: "untrack_args P (text_of ctx) = Inr (ch, n)"
    and s0_def: "s0 = s\<lparr>userCommandCounts :=
                   snd (checkRateLimit cfg (now ctx) ?uid (userCommandCounts s))\<rparr>"
    and al: "fst (checkRateLimit cfg (now ctx) ?uid (userCommandCounts s))"
    and t: "untrack_store http ?uid ch n s0 = (s', StoppedTracking ch n, calls)"
    by (rule untrack_stopped)
  from assms(1) s0 have u: "unique_records s0"
    by (rule unique_records_wallets_eq)
  from assms(3) s0 have f: "findOne (wallets s0) (toLowerCase n) ch = Some w"
    by simp
  from untrack_store_effect [OF u f t] assms(4) s0
  have m: "?uid \<in> set (trackingUserIds w)"
    and d: "wallets s' = filter (\<lambda>x. x \<noteq> w) (wallets s)"
    and g: "findOne (wallets s') (toLowerCase n) ch = None"
    by (auto split: if_splits)
  from assms(4) have e: "filter (\<lambda>i. i \<noteq> ?uid) (trackingUserIds w) = []"
    by (simp add: subset_singleton_filter)
  have "untrack_store http' ?uid ch n s0 = untrack_store http ?uid ch n s0"
    by (simp only: untrack_store_last [OF f m e])
  with t a al have "untrack P cfg http' ctx s = (s', StoppedTracking ch n, calls)"
    by (simp add: untrack_def s0_def split_beta Let_def)
  moreover from g have "\<forall>x \<in> set (wallets s').
            chainTicker x = ch \<and> address x = toLowerCase n \<longrightarrow> ?uid \<notin> set (trackingUserIds x)"
    by (auto simp: findOne_None_iff)
  ultimately show ?thesis
    using d g by simp
qed

text \<open>The theorem when the delete request gets no answer, against a request answered with
  status 200: Alice's record is gone either way.\<close>

theorem untrack_removal_whatever_release_witness:
  "unique_records (vault_state [1001])
   \<and> findOne (wallets (vault_state [1001])) (toLowerCase vault_address) ''ETH'' =
       Some (vault_record [1001])
   \<and> set (trackingUserIds (vault_record [1001])) \<subseteq> {from_id alice_untrack}
   \<and> untrack example_platform default_config NoResponse alice_untrack (vault_state [1001]) =
       (\<lparr>users = [], wallets = [], next_id = 1, userCommandCounts = [1001 \<mapsto> [3000]]\<rparr>,
        StoppedTracking ''ETH'' vault_address, [DeleteStream ''stream-1'' False])
   \<and> untrack example_platform default_config (Response 200 EmptyBody) alice_untrack
         (vault_state [1001]) =
       untrack example_platform default_config NoResponse alice_untrack (vault_state [1001])"
proof -
  have u: "unique_records (vault_state [1001])"
    by (simp add: handler_eval)
  have f: "findOne (wallets (vault_state [1001])) (toLowerCase vault_address) ''ETH'' =
             Some (vault_record [1001])"
    by (simp add: handler_eval)
  have l: "set (trackingUserIds (vault_record [1001])) \<subseteq> {from_id alice_untrack}"
    by (simp add: vault_record_def alice_untrack_def)
  have t: "untrack example_platform default_config NoResponse alice_untrack (vault_state [1001]) =
       (\<lparr>users = [], wallets = [], next_id = 1, userCommandCounts = [1001 \<mapsto> [3000]]\<rparr>,
        StoppedTracking ''ETH'' vault_address, [DeleteStream ''stream-1'' False])"
    by (simp add: handler_eval)
  from untrack_removal_whatever_release [OF u t f l, of "Response 200 EmptyBody"] u f l t
  show ?thesis by simp
qed

text \<open>
  C5, as the code has it: when \<^verbatim>\<open>/track\<close> finds no record for the pair, it asks the provider
  for a stream first (exactly one create call). If the request succeeds (status 200 or 201
  and a body that is not empty) it appends the record, with the user as only subscriber and
  the \<^verbatim>\<open>id\<close> of the answer as stream id, \<^verbatim>\<open>null\<close> when the answer has no \<^verbatim>\<open>id\<close>; if the request
  fails it replies with the failure and leaves the collection as it was: no record is
  created.
\<close>

theorem track_creates_record_after_stream:
  assumes "track_args P cfg (text_of ctx) = Inr (ch, n, al)"
    and "findOne (wallets s) (toLowerCase n) ch = None"
    and "track P cfg http ctx s = (s', r, calls)" and "r \<noteq> RateLimited"
  shows "calls = [CreateStream n ch (webhookPublicUrl cfg @ webhookPath cfg)] \<and>
         (if provisioned http
          then r = TrackingStarted ch n \<and>
               wallets s' = wallets s @
                 [\<lparr>wallet_id = next_id s, address = toLowerCase n, chainTicker = ch,
                   wallet_alias = al, trackingUserIds = [from_id ctx],
                   moralisStreamId =
                     (case http of Response status (StreamData i) \<Rightarrow> i | _ \<Rightarrow> None)\<rparr>]
          else r = StreamFailed \<and> wallets s' = wallets s \<and>
               findOne (wallets s') (toLowerCase n) ch = None) \<and>
         provisioned http =
           (\<exists>status i. http = Response status (StreamData i) \<and> (status = 200 \<or> status = 201))"
proof -
  let ?url = "webhookPublicUrl cfg @ webhookPath cfg"
  from assms(3,4,1) obtain s0 where s0: "wallets s0 = wallets s" "next_id s0 = next_id s"
    and t: "track_store cfg http (from_id ctx) (from_username ctx) ch n al s0 = (s', r, calls)"
    by (rule track_accepted)
  from assms(2) s0 have f: "findOne (wallets s0) (toLowerCase n) ch = None"
    by simp
  note cs = createStream_known [OF track_args_chain [OF assms(1)], of http n ?url]
  have ok: "provisioned http =
              (\<exists>status i. http = Response status (StreamData i) \<and> (status = 200 \<or> status = 201))"
  proof (cases http)
    case NoResponse
    then show ?thesis by (simp add: provisioned_def)
  next
    case (Response st d)
    then show ?thesis by (cases d) (auto simp: provisioned_def)
  qed
  show ?thesis
  proof (cases "provisioned http")
    case False
    with cs(2) have "falsy (snd (createStream http n ch ?url))" by simp
    from t [unfolded track_store_failed [OF f this]] False cs(1) ok s0 assms(2) show ?thesis
      by auto
  next
    case True
    with cs(2) have nf: "\<not> falsy (snd (createStream http n ch ?url))" by simp
    from True ok obtain st i where h: "http = Response st (StreamData i)" "st = 200 \<or> st = 201"
      by auto
    then have "id_of (snd (createStream http n ch ?url)) = i"
      using track_args_chain [OF assms(1)] by (auto simp: createStream_def id_of_def)
    with t [unfolded track_store_new [OF f nf]] True cs(1) ok s0 h show ?thesis
      by auto
  qed
qed

text \<open>The theorem at Alice's first \<^verbatim>\<open>/track\<close> on the empty store, answered with status 201
  and a stream id, and answered with status 200 and an empty body.\<close>

theorem track_creates_record_after_stream_witness:
  "track_args example_platform default_config (text_of alice_track) =
     Inr (''ETH'', vault_address, Some ''Vault'')
   \<and> findOne (wallets initial_state) (toLowerCase vault_address) ''ETH'' = None
   \<and> provisioned (Response 201 (StreamData (Some ''stream-1'')))
   \<and> track example_platform default_config (Response 201 (StreamData (Some ''stream-1'')))
         alice_track initial_state =
       (\<lparr>users = [\<lparr>telegramId = 1001, username = Some ''alice'', trackedWalletIds = [0]\<rparr>],
          wallets = [vault_record [1001]], next_id = 1,
          userCommandCounts = [1001 \<mapsto> [1000]]\<rparr>,
        TrackingStarted ''ETH'' vault_address,
        [CreateStream vault_address ''ETH'' ''https://bot.example/webhook/moralis''])
   \<and> \<not> provisioned (Response 200 EmptyBody)
   \<and> track example_platform default_config (Response 200 EmptyBody) alice_track initial_state =
       (\<lparr>users = [\<lparr>telegramId = 1001, username = Some ''alice'', trackedWalletIds = []\<rparr>],
          wallets = [], next_id = 0, userCommandCounts = [1001 \<mapsto> [1000]]\<rparr>,
        StreamFailed,
        [CreateStream vault_address ''ETH'' ''https://bot.example/webhook/moralis''])"
proof -
  let ?T = "track example_platform default_config (Response 201 (StreamData (Some ''stream-1'')))
              alice_track initial_state"
  let ?E = "track example_platform default_config (Response 200 EmptyBody) alice_track
              initial_state"
  have a: "track_args example_platform default_config (text_of alice_track) =
             Inr (''ETH'', vault_address, Some ''Vault'')"
    by (simp add: handler_eval)
  have f: "findOne (wallets initial_state) (toLowerCase vault_address) ''ETH'' = None"
    by (simp add: handler_eval)
  have p: "provisioned (Response 201 (StreamData (Some ''stream-1'')))"
    "\<not> provisioned (Response 200 EmptyBody)"
    by (simp_all add: provisioned_def)
  have s: "fst ?T =
       \<lparr>users = [\<lparr>telegramId = 1001, username = Some ''alice'', trackedWalletIds = [0]\<rparr>],
          wallets = [vault_record [1001]], next_id = 1,
          userCommandCounts = [1001 \<mapsto> [1000]]\<rparr>"
    and e: "fst ?E =
       \<lparr>users = [\<lparr>telegramId = 1001, username = Some ''alice'', trackedWalletIds = []\<rparr>],
          wallets = [], next_id = 0, userCommandCounts = [1001 \<mapsto> [1000]]\<rparr>"
    by (simp_all add: handler_eval)
  have r: "fst (snd ?T) \<noteq> RateLimited" "fst (snd ?E) \<noteq> RateLimited"
    by (simp_all add: handler_eval)
  have t: "?T = (fst ?T, fst (snd ?T), snd (snd ?T))" "?E = (fst ?E, fst (snd ?E), snd (snd ?E))"
    by simp_all
  from track_creates_record_after_stream [OF a f t(1) r(1)] p
  have "snd (snd ?T) = [CreateStream vault_address ''ETH'' ''https://bot.example/webhook/moralis'']"
    and "fst (snd ?T) = TrackingStarted ''ETH'' vault_address"
    by (simp_all add: default_config_def)
  moreover from track_creates_record_after_stream [OF a f t(2) r(2)] p
  have "snd (snd ?E) = [CreateStream vault_address ''ETH'' ''https://bot.example/webhook/moralis'']"
    and "fst (snd ?E) = StreamFailed"
    by (simp_all add: default_config_def)
  ultimately have "?T =
       (\<lparr>users = [\<lparr>telegramId = 1001, username = Some ''alice'', trackedWalletIds = [0]\<rparr>],
          wallets = [vault_record [1001]], next_id = 1,
          userCommandCounts = [1001 \<mapsto> [1000]]\<rparr>,
        TrackingStarted ''ETH'' vault_address,
        [CreateStream vault_address ''ETH'' ''https://bot.example/webhook/moralis''])"
    and "?E =
       (\<lparr>users = [\<lparr>telegramId = 1001, username = Some ''alice'', trackedWalletIds = []\<rparr>],
          wallets = [], next_id = 0, userCommandCounts = [1001 \<mapsto> [1000]]\<rparr>,
        StreamFailed,
        [CreateStream vault_address ''ETH'' ''https://bot.example/webhook/moralis''])"
    using s e by (simp_all add: prod_eq_iff)
  with a f p show ?thesis
    by simp
qed

text \<open>
  C5 as stated fails: when the provider does not answer Alice's first \<^verbatim>\<open>/track\<close>, the
  handler reports the failure and the store holds no record for the wallet, pending or
  other; and when the provider answers with a stream id, the record is created with that
  id in place, not with \<^verbatim>\<open>null\<close>.
\<close>

theorem track_pending_record_counterexample:
  "fst (snd (track example_platform default_config NoResponse alice_track initial_state)) =
     StreamFailed
   \<and> wallets (fst (track example_platform default_config NoResponse alice_track
                      initial_state)) = []
   \<and> findOne (wallets (fst (track example_platform default_config NoResponse alice_track
                               initial_state)))
         (toLowerCase vault_address) ''ETH'' = None
   \<and> map moralisStreamId
         (wallets (fst (track example_platform default_config
                          (Response 200 (StreamData (Some ''stream-1''))) alice_track
                          initial_state))) = [Some ''stream-1'']"
  by (simp add: handler_eval)

text \<open>
  C6: a \<^verbatim>\<open>/track\<close> of a wallet whose record already lists the user (and which the rate
  limiter lets through) answers that the wallet is already tracked, leaves every wallet
  record as it is and issues no call to the provider.
\<close>

theorem track_idempotent:
  assumes "track_args P cfg (text_of ctx) = Inr (ch, n, al)"
    and "findOne (wallets s) (toLowerCase n) ch = Some w"
    and "from_id ctx \<in> set (trackingUserIds w)"
    and "track P cfg http ctx s = (s', r, calls)" and "r \<noteq> RateLimited"
  shows "r = AlreadyTracking \<and> wallets s' = wallets s \<and> next_id s' = next_id s \<and>
         findOne (wallets s') (toLowerCase n) ch = Some w \<and> calls = []"
proof -
  from assms(4,5,1) obtain s0 where s0: "wallets s0 = wallets s" "next_id s0 = next_id s"
    and t: "track_store cfg http (from_id ctx) (from_username ctx) ch n al s0 = (s', r, calls)"
    by (rule track_accepted)
  from assms(2) s0 have f: "findOne (wallets s0) (toLowerCase n) ch = Some w"
    by simp
  from t [unfolded track_store_already [OF f assms(3)]] s0 assms(2) show ?thesis
    by auto
qed

text \<open>The theorem at a second \<^verbatim>\<open>/track\<close> by Alice.\<close>

theorem track_idempotent_witness:
  "track_args example_platform default_config (text_of alice_track) =
     Inr (''ETH'', vault_address, Some ''Vault'')
   \<and> findOne (wallets (vault_state [1001])) (toLowerCase vault_address) ''ETH'' =
       Some (vault_record [1001])
   \<and> from_id alice_track \<in> set (trackingUserIds (vault_record [1001]))
   \<and> track example_platform default_config (Response 200 (StreamData (Some ''stream-2''))) alice_track
         (vault_state [1001]) =
       (\<lparr>users = [\<lparr>telegramId = 1001, username = Some ''alice'', trackedWalletIds = []\<rparr>],
          wallets = [vault_record [1001]], next_id = 1,
          userCommandCounts = [1001 \<mapsto> [1000]]\<rparr>,
        AlreadyTracking, [])"
proof -
  let ?T = "track example_platform default_config (Response 200 (StreamData (Some ''stream-2''))) alice_track
              (vault_state [1001])"
  have a: "track_args example_platform default_config (text_of alice_track) =
             Inr (''ETH'', vault_address, Some ''Vault'')"
    by (simp add: handler_eval)
  have f: "findOne (wallets (vault_state [1001])) (toLowerCase vault_address) ''ETH'' =
             Some (vault_record [1001])"
    by (simp add: handler_eval)
  have m: "from_id alice_track \<in> set (trackingUserIds (vault_record [1001]))"
    by (simp add: alice_track_def vault_record_def)
  have s: "fst ?T =
       \<lparr>users = [\<lparr>telegramId = 1001, username = Some ''alice'', trackedWalletIds = []\<rparr>],
          wallets = [vault_record [1001]], next_id = 1,
          userCommandCounts = [1001 \<mapsto> [1000]]\<rparr>"
    by (simp add: handler_eval)
  have r: "fst (snd ?T) \<noteq> RateLimited"
    by (simp add: handler_eval)
  have t: "?T = (fst ?T, fst (snd ?T), snd (snd ?T))"
    by simp
  from track_idempotent [OF a f m t r]
  have "fst (snd ?T) = AlreadyTracking" and "snd (snd ?T) = []"
    by simp_all
  with a f m s t show ?thesis
    by (metis (no_types, lifting))
qed

text \<open>
  C8: two \<^verbatim>\<open>/track\<close> commands whose chain and address arguments validate to the same chain
  ticker and the same normalized address, run one after the other on a store with unique
  records, leave at most one record under the key of that pair (the lower-cased normalized
  address); and when neither command is turned away by the rate limiter or fails to get
  its stream, there is exactly one such record and it lists both users.
\<close>

theorem same_canonical_form_one_record:
  assumes "unique_records s0"
    and "track_args P cfg (text_of ctx1) = Inr (ch, n, al1)"
    and "track_args P cfg (text_of ctx2) = Inr (ch, n, al2)"
    and "track P cfg http1 ctx1 s0 = (s1, r1, calls1)"
    and "track P cfg http2 ctx2 s1 = (s2, r2, calls2)"
  shows "length (records_for s2 ch (toLowerCase n)) \<le> 1 \<and>
         (r1 \<notin> {RateLimited, StreamFailed} \<and> r2 \<notin> {RateLimited, StreamFailed} \<longrightarrow>
            (\<exists>w. records_for s2 ch (toLowerCase n) = [w] \<and>
                 {from_id ctx1, from_id ctx2} \<subseteq> set (trackingUserIds w)))"
proof -
  have u1: "unique_records s1"
    using assms(4)
  proof (cases rule: track_cases)
    case (stored ch' n' al' s)
    from assms(1) stored(2,3) have "unique_records s" by (rule unique_records_wallets_eq)
    then show ?thesis using stored(5) by (rule track_store_unique)
  qed (auto intro: unique_records_wallets_eq [OF assms(1)])
  have u2: "unique_records s2"
    using assms(5)
  proof (cases rule: track_cases)
    case (stored ch' n' al' s)
    from u1 stored(2,3) have "unique_records s" by (rule unique_records_wallets_eq)
    then show ?thesis using stored(5) by (rule track_store_unique)
  qed (auto intro: unique_records_wallets_eq [OF u1])
  have both: "\<exists>w. records_for s2 ch (toLowerCase n) = [w] \<and>
                  {from_id ctx1, from_id ctx2} \<subseteq> set (trackingUserIds w)"
    if r1: "r1 \<notin> {RateLimited, StreamFailed}" and r2: "r2 \<notin> {RateLimited, StreamFailed}"
  proof -
    from r1 have "r1 \<noteq> RateLimited" by simp
    with assms(4) obtain sa where sa: "wallets sa = wallets s0" "next_id sa = next_id s0"
      and ta: "track_store cfg http1 (from_id ctx1) (from_username ctx1) ch n al1 sa = (s1, r1, calls1)"
      using assms(2) by (elim track_accepted) 
    from assms(1) sa have "unique_records sa" by (rule unique_records_wallets_eq)
    from track_store_subscribed [OF this ta] r1
    obtain w1 where w1: "findOne (wallets s1) (toLowerCase n) ch = Some w1"
      "from_id ctx1 \<in> set (trackingUserIds w1)" by auto
    from r2 have "r2 \<noteq> RateLimited" by simp
    with assms(5) obtain sb where sb: "wallets sb = wallets s1" "next_id sb = next_id s1"
      and tb: "track_store cfg http2 (from_id ctx2) (from_username ctx2) ch n al2 sb = (s2, r2, calls2)"
      using assms(3) by (elim track_accepted)
    from u1 sb have "unique_records sb" by (rule unique_records_wallets_eq)
    from track_store_subscribed [OF this tb] r2 w1 sb
    obtain w2 where w2: "findOne (wallets s2) (toLowerCase n) ch = Some w2"
      "from_id ctx2 \<in> set (trackingUserIds w2)" "set (trackingUserIds w1) \<subseteq> set (trackingUserIds w2)"
      by auto
    from records_for_found [OF u2 w2(1)] w1(2) w2(2,3) show ?thesis
      by auto
  qed
  from records_for_le1 [OF u2] both show ?thesis
    by blast
qed

text \<open>The theorem at Alice's lower-case and Bob's upper-case spelling of the address.\<close>

theorem same_canonical_form_one_record_witness:
  "unique_records initial_state
   \<and> track_args example_platform default_config (text_of alice_track) =
       Inr (''ETH'', vault_address, Some ''Vault'')
   \<and> track_args example_platform default_config (text_of bob_track) =
       Inr (''ETH'', vault_address, None)
   \<and> records_for
        (fst (track example_platform default_config NoResponse bob_track
               (fst (track example_platform default_config (Response 200 (StreamData (Some ''stream-1'')))
                      alice_track initial_state))))
        ''ETH'' (toLowerCase vault_address) = [vault_record [1001, 1002]]"
proof -
  let ?T1 = "track example_platform default_config (Response 200 (StreamData (Some ''stream-1'')))
               alice_track initial_state"
  let ?T2 = "track example_platform default_config NoResponse bob_track (fst ?T1)"
  have u: "unique_records initial_state"
    by (simp add: handler_eval)
  have a1: "track_args example_platform default_config (text_of alice_track) =
              Inr (''ETH'', vault_address, Some ''Vault'')"
    and a2: "track_args example_platform default_config (text_of bob_track) =
               Inr (''ETH'', vault_address, None)"
    by (simp_all add: handler_eval)
  have t1: "?T1 = (fst ?T1, fst (snd ?T1), snd (snd ?T1))"
    and t2: "?T2 = (fst ?T2, fst (snd ?T2), snd (snd ?T2))"
    by simp_all
  have r: "fst (snd ?T1) \<notin> {RateLimited, StreamFailed} \<and> fst (snd ?T2) \<notin> {RateLimited, StreamFailed}"
    by (simp add: handler_eval)
  have ws: "wallets (fst ?T2) = [vault_record [1001, 1002]]"
    by (simp add: handler_eval)
  from same_canonical_form_one_record [OF u a1 a2 t1 t2] r
  obtain w where "records_for (fst ?T2) ''ETH'' (toLowerCase vault_address) = [w]"
    by blast
  moreover from this ws have "w = vault_record [1001, 1002]"
    by (auto simp: records_for_def split: if_splits)
  ultimately show ?thesis
    using u a1 a2 by simp
qed

subsection \<open>Two HMAC values\<close>











subsection \<open>The claims about the dispatcher\<close>


lemma deliveries_to_append [simp]:
  "deliveries_to u (xs @ ys) = deliveries_to u xs + deliveries_to u ys"
  by (simp add: deliveries_to_def)

lemma deliveries_to_Nil [simp]: "deliveries_to u [] = 0"
  by (simp add: deliveries_to_def)




lemma toLowerCase_Nil_iff [simp]: "(toLowerCase s = []) = (s = [])"
  by (simp add: toLowerCase_def)


lemmas dispatch_eval =
  processTransaction_def deliveries_for_def trackedAddresses_of_def ticker_of_chainId_def
  or_empty_def CHAIN_CONFIG_def findOne_def toLowerCase_def toLowerCase_char_def
  self_transfer_def self_transfer_event_def vault_record_def deliveries_to_def
  subscribers_at_def alerts_per_subscriber_def Let_def





text \<open>
  The receiver on a parsed body. When the addresses of a transaction can be read and the
  body has no token transfers to send, the deliveries are those of \<open>processTransaction\<close> on
  the typed event; a transaction whose sender is a number makes \<^verbatim>\<open>toLowerCase\<close> throw and gets
  no delivery, while the transaction before it is delivered.
\<close>

lemma process_parsed_native:
  assumes "txData_of tx = Inr txData" and "transfers_of body = Native"
    and "converts (field ''hash'' tx)"
  shows "process_parsed ws tx body = processTransaction ws txData (event_of body [])"
  using assms
  by (simp add: process_parsed_def processTransaction_def event_of_def split: option.splits)

lemma process_parsed_tokens:
  assumes "txData_of tx = Inr txData" and "transfers_of body = Tokens values"
    and "\<not> snd (readable_transfers values)"
  shows "process_parsed ws tx body =
           processTransaction ws txData (event_of body (fst (readable_transfers values)))"
  using assms
  by (simp add: process_parsed_def processTransaction_def event_of_def split: option.splits)

lemma mistyped_sender_no_delivery:
  "txs_of mistyped_event =
     Inr [JObject [(''toAddress'', JString ''0x5aAeb6053F3E94C9b9A09f33669435E7Ef1BeAed'')],
          JObject [(''fromAddress'', JNumber ''7''),
                   (''toAddress'', JString ''0x5aAeb6053F3E94C9b9A09f33669435E7Ef1BeAed'')]]
   \<and> map (\<lambda>tx. length (process_parsed [vault_record [1001]] tx mistyped_event))
        (case txs_of mistyped_event of Inl e \<Rightarrow> [] | Inr values \<Rightarrow> values) = [1, 0]"
  by (simp add: mistyped_event_def txs_of_def truthy_def field_def process_parsed_def
      string_field_def txData_of_def address_field_def transfers_of_def event_of_def
      converts_def dispatch_eval)





end
